theory Spec2Isabelle
  imports Complex_Main
begin

section \<open>Python values shared by the three modules\<close>

text \<open>
  A Python \<open>dict\<close> keeps its keys in insertion order and holds each key once:
  an assignment \<open>d[k] = v\<close> replaces the value of a key that is present (the key keeps
  its place) and appends the pair otherwise. Dictionaries are association lists
  updated by \<open>dict_set\<close> and read by \<open>map_of\<close>.
\<close>

fun dict_set :: "'k \<Rightarrow> 'v \<Rightarrow> ('k \<times> 'v) list \<Rightarrow> ('k \<times> 'v) list" where
  "dict_set k v [] = [(k, v)]"
| "dict_set k v ((k', v') # ps) =
     (if k' = k then (k', v) # ps else (k', v') # dict_set k v ps)"

definition dict_keys :: "('k \<times> 'v) list \<Rightarrow> 'k list" where
  "dict_keys d = map fst d"

section \<open>node/inventory.py\<close>

subsection \<open>The string methods the reader calls\<close>

text \<open>
  \<open>str.rstrip()\<close> removes trailing whitespace. Characters are the code points below
  256; the whitespace among them (\<open>str.isspace\<close>) is tab, line feed, vertical tab,
  form feed, carriage return, the four separators 28 to 31, the space, and the
  two Latin-1 characters 133 and 160.
\<close>

definition isspace :: "char \<Rightarrow> bool" where
  "isspace c = ((of_char c :: nat) \<in> set [9, 10, 11, 12, 13, 28, 29, 30, 31, 32, 133, 160])"

definition rstrip :: "string \<Rightarrow> string" where
  "rstrip s = rev (dropWhile isspace (rev s))"

text \<open>\<open>s.lstrip(c)\<close> and \<open>s.rstrip(c)\<close> for a one-character argument.\<close>

definition lstrip_char :: "char \<Rightarrow> string \<Rightarrow> string" where
  "lstrip_char c s = dropWhile (\<lambda>x. x = c) s"

definition rstrip_char :: "char \<Rightarrow> string \<Rightarrow> string" where
  "rstrip_char c s = rev (dropWhile (\<lambda>x. x = c) (rev s))"

definition startswith :: "string \<Rightarrow> char \<Rightarrow> bool" where
  "startswith s c = (case s of [] \<Rightarrow> False | x # _ \<Rightarrow> x = c)"

definition endswith :: "string \<Rightarrow> char \<Rightarrow> bool" where
  "endswith s c = (case rev s of [] \<Rightarrow> False | x # _ \<Rightarrow> x = c)"

text \<open>
  \<open>s.split(sep)\<close> with an explicit one-character separator: every occurrence of the
  separator ends a piece, so the result has one piece more than there are
  separators, and the empty string gives one empty piece.
\<close>

fun split :: "char \<Rightarrow> string \<Rightarrow> string list" where
  "split sep [] = [[]]"
| "split sep (c # cs) =
     (if c = sep then [] # split sep cs
      else (case split sep cs of [] \<Rightarrow> [[c]] | p # ps \<Rightarrow> (c # p) # ps))"

subsection \<open>read_inventory_file_to_dict\<close>

text \<open>
  The function first hands the file to \<open>configparser.ConfigParser.read\<close> and never
  looks at what it parsed; the only effect of that call on the result is that it may
  raise. The parser belongs to the standard library, not to this repository, so
  the function takes it as a parameter \<open>config_read\<close>: the error it raises on
  these lines, if any. What holds for every \<open>config_read\<close> holds whatever the
  library does; the parser the program runs with is modelled further down as
  \<open>ConfigParser_read\<close>.

  The file is the list of its lines as \<open>readlines()\<close> returns them. A record is the
  dictionary \<open>data\<close>; \<open>_groups\<close> maps a section name to its records.
\<close>

datatype error =
    DuplicateSectionError string
  | DuplicateOptionError string string
  | MissingSectionHeaderError
  | ValueError
  | KeyError string
  | ValidationError
  | AttributeError
  | TypeError

type_synonym data = "(string \<times> string) list"
type_synonym groups = "(string \<times> data list) list"

text \<open>The test \<open>line.startswith("[") and line.endswith("]")\<close>, on the stripped line.\<close>

definition is_header :: "string \<Rightarrow> bool" where
  "is_header line = (startswith line (CHR ''['') \<and> endswith line (CHR '']''))"

definition header_name :: "string \<Rightarrow> string" where
  "header_name line = rstrip_char (CHR '']'') (lstrip_char (CHR ''['') line)"

text \<open>
  The inner loop \<open>for piece in pieces[1:]\<close>. The unpacking \<open>k, v = piece.split("=")\<close>
  raises ValueError unless the split has exactly two parts.
\<close>

fun read_pieces :: "string list \<Rightarrow> data \<Rightarrow> error + data" where
  "read_pieces [] data = Inr data"
| "read_pieces (piece # pieces) data =
     (if piece = '' '' then read_pieces pieces data
      else (case split (CHR ''='') piece of
              [k, v] \<Rightarrow> read_pieces pieces (dict_set k v data)
            | _ \<Rightarrow> Inl ValueError))"

text \<open>
  The record of one stripped, non-empty line that is not a header. \<open>split\<close> never
  returns the empty list, so \<open>pieces[0]\<close> is there.
\<close>

definition read_record :: "string \<Rightarrow> error + data" where
  "read_record line =
     (let pieces = split (CHR '' '') line
      in read_pieces (tl pieces) [(''addr'', hd pieces)])"

text \<open>
  The loop over the lines, with its two variables \<open>section_name\<close> and \<open>_groups\<close> as
  the state. \<open>_groups[section_name].append(data)\<close> raises KeyError when the section
  name is not a key.
\<close>

fun read_lines :: "string list \<Rightarrow> string \<times> groups \<Rightarrow> error + groups" where
  "read_lines [] (section_name, groups) = Inr groups"
| "read_lines (l # ls) (section_name, groups) =
     (let line = rstrip l in
      if is_header line
      then read_lines ls (header_name line, dict_set (header_name line) [] groups)
      else if length line = 0 then read_lines ls (section_name, groups)
      else (case read_record line of
              Inl e \<Rightarrow> Inl e
            | Inr data \<Rightarrow>
                (case map_of groups section_name of
                   None \<Rightarrow> Inl (KeyError section_name)
                 | Some records \<Rightarrow>
                     read_lines ls
                       (section_name, dict_set section_name (records @ [data]) groups))))"

definition read_inventory_file_to_dict ::
    "(string list \<Rightarrow> error option) \<Rightarrow> string list \<Rightarrow> error + groups" where
  "read_inventory_file_to_dict config_read lines =
     (case config_read lines of
        Some e \<Rightarrow> Inl e
      | None \<Rightarrow> read_lines lines ('''', []))"

text \<open>
  A record line is a line that reaches the third branch of the loop: stripped, it is
  neither a header nor empty.
\<close>

definition record_line :: "string \<Rightarrow> bool" where
  "record_line l = (\<not> is_header (rstrip l) \<and> rstrip l \<noteq> [])"

subsection \<open>configparser.ConfigParser.read\<close>

text \<open>
  The parser that \<open>read_inventory_file_to_dict\<close> is run with: the loop of
  \<open>RawConfigParser._read\<close> of the standard library (CPython 3.12), for a fresh
  parser constructed as in the source, \<open>ConfigParser(allow_no_value=True,
  delimiters=" ")\<close>, and so with the defaults \<open>strict=True\<close>,
  \<open>comment_prefixes=('#', ';')\<close>, no inline comments and
  \<open>empty_lines_in_values=True\<close>. Only what decides whether the call raises is
  kept: the values of the options are not.

  \<open>str.strip()\<close>, and the index of the first character that is not whitespace
  (the match of the pattern \<open>\S\<close>, 0 when there is none).
\<close>

definition strip :: "string \<Rightarrow> string" where
  "strip s = rstrip (dropWhile isspace s)"

definition first_nonspace :: "string \<Rightarrow> nat" where
  "first_nonspace line =
     (if list_all isspace line then 0 else length (takeWhile isspace line))"

text \<open>
  The section pattern \<open>\[(?P<header>.+)\]\<close>, matched at the start of the stripped
  line: the header runs from after the opening bracket to before the last closing
  bracket, and is not empty.
\<close>

definition sect_header :: "string \<Rightarrow> string option" where
  "sect_header v =
     (case v of
        [] \<Rightarrow> None
      | c # rest \<Rightarrow>
          (if c = CHR ''[''
           then (case dropWhile (\<lambda>x. x \<noteq> CHR '']'') (rev rest) of
                   [] \<Rightarrow> None
                 | _ # header \<Rightarrow> if header = [] then None else Some (rev header))
           else None))"

text \<open>
  The option pattern for the delimiter \<open>" "\<close> and optional values,
  \<open>(?P<option>.*?)\s*(?:(?P<vi>\ )\s*(?P<value>.*))?$\<close>: the option name is the
  shortest prefix that is followed by a run of whitespace with a space in it,
  and the whole line when there is no such run. The second component tells
  whether a value was matched. On a stripped, non-empty line the pattern always
  matches and the name is not empty.
\<close>

fun split_option :: "string \<Rightarrow> string \<times> bool" where
  "split_option [] = ([], False)"
| "split_option (c # cs) =
     (if isspace c \<and> CHR '' '' \<in> set (takeWhile isspace (c # cs)) then ([], True)
      else (case split_option cs of (option, valued) \<Rightarrow> (c # option, valued)))"

text \<open>\<open>optionxform\<close> is \<open>str.lower\<close>; among the code points below 256 it moves the
  capital letters, ASCII and Latin-1, 32 places up.\<close>

definition lower_char :: "char \<Rightarrow> char" where
  "lower_char c =
     (let n = (of_char c :: nat)
      in if (65 \<le> n \<and> n \<le> 90) \<or> (192 \<le> n \<and> n \<le> 222 \<and> n \<noteq> 215)
         then char_of (n + 32) else c)"

definition lower :: "string \<Rightarrow> string" where
  "lower s = map lower_char s"

text \<open>
  The variables of the loop. \<open>cursect\<close> is the dictionary of the current section;
  it is kept as the name of that section, which is also the variable \<open>sectname\<close>.
  \<open>optvalued\<close> tells whether \<open>cursect[optname]\<close> is a list and not \<open>None\<close>.
  \<open>elements_added\<close> holds section names and pairs of a section and an option.
\<close>

record parser_state =
  sections :: "string list"
  elements_added :: "(string + string \<times> string) list"
  cursect :: "string option"
  optname :: "string option"
  optvalued :: bool
  indent_level :: nat

definition DEFAULTSECT :: string where
  "DEFAULTSECT = ''DEFAULT''"

text \<open>
  One line of the loop. A line that is empty once stripped, or starts with a
  comment prefix, changes nothing that is kept here. A continuation line is
  appended to the value of the current option and raises AttributeError when that
  value is \<open>None\<close>.
\<close>

definition parse_line :: "string \<Rightarrow> parser_state \<Rightarrow> error + parser_state" where
  "parse_line line st =
     (let stripped = strip line;
          v = (if startswith stripped (CHR ''#'') \<or> startswith stripped (CHR '';'')
               then [] else stripped)
      in if v = [] then Inr st
         else
           (let cur_indent_level = first_nonspace line
            in if cursect st \<noteq> None \<and> optname st \<noteq> None \<and> optname st \<noteq> Some [] \<and>
                  cur_indent_level > indent_level st
               then (if optvalued st then Inr st else Inl AttributeError)
               else
                 (case sect_header v of
                    Some sectname \<Rightarrow>
                      (if sectname \<in> set (sections st)
                       then (if Inl sectname \<in> set (elements_added st)
                             then Inl (DuplicateSectionError sectname)
                             else Inr (st\<lparr> indent_level := cur_indent_level,
                                           cursect := Some sectname,
                                           elements_added := elements_added st @ [Inl sectname],
                                           optname := None \<rparr>))
                       else if sectname = DEFAULTSECT
                       then Inr (st\<lparr> indent_level := cur_indent_level,
                                     cursect := Some sectname,
                                     optname := None \<rparr>)
                       else Inr (st\<lparr> indent_level := cur_indent_level,
                                     sections := sections st @ [sectname],
                                     cursect := Some sectname,
                                     elements_added := elements_added st @ [Inl sectname],
                                     optname := None \<rparr>))
                  | None \<Rightarrow>
                      (case cursect st of
                         None \<Rightarrow> Inl MissingSectionHeaderError
                       | Some sectname \<Rightarrow>
                           (case split_option v of
                              (option, valued) \<Rightarrow>
                                (let name = lower option
                                 in if Inr (sectname, name) \<in> set (elements_added st)
                                    then Inl (DuplicateOptionError sectname name)
                                    else Inr (st\<lparr> indent_level := cur_indent_level,
                                                  elements_added :=
                                                    elements_added st @ [Inr (sectname, name)],
                                                  optname := Some name,
                                                  optvalued := valued \<rparr>)))))))"

fun parse_lines :: "string list \<Rightarrow> parser_state \<Rightarrow> error + parser_state" where
  "parse_lines [] st = Inr st"
| "parse_lines (line # rest) st =
     (case parse_line line st of
        Inl e \<Rightarrow> Inl e
      | Inr st' \<Rightarrow> parse_lines rest st')"

definition ConfigParser_read :: "string list \<Rightarrow> error option" where
  "ConfigParser_read lines =
     (case parse_lines lines
             \<lparr> sections = [], elements_added = [], cursect = None, optname = None,
               optvalued = False, indent_level = 0 \<rparr> of
        Inl e \<Rightarrow> Some e
      | Inr _ \<Rightarrow> None)"


section \<open>execute/remote_executor.py\<close>

text \<open>
  A \<open>Node\<close> as the executor reads it, and the executor's own fields.
\<close>

record node =
  name :: string
  ip :: string
  sshuser :: string
  sshpass :: "string option"

datatype MissingHostKey = accept | raise_error

record RemoteExecutor =
  nodes :: "node list"
  user :: string
  missing_host_key :: MissingHostKey
  ssh_path_to_private_key :: "string option"

definition PREFIX :: "string list" where
  "PREFIX = [''sh'', ''-c'']"

text \<open>\<open>__init__\<close>: the argument \<open>nodes\<close> defaults to \<open>None\<close>, and \<open>nodes or []\<close> is stored.\<close>

definition RemoteExecutor_init ::
    "node list option \<Rightarrow> string \<Rightarrow> bool \<Rightarrow> string option \<Rightarrow> RemoteExecutor" where
  "RemoteExecutor_init nodes_arg user_arg ssh_allow_missing_host_keys key_arg =
     \<lparr> nodes = (case nodes_arg of None \<Rightarrow> [] | Some ns \<Rightarrow> ns),
       user = user_arg,
       missing_host_key = (if ssh_allow_missing_host_keys then accept else raise_error),
       ssh_path_to_private_key = key_arg \<rparr>"

text \<open>
  The keyword arguments of \<open>spur.SshShell\<close>: the dictionary \<open>params\<close> holds either
  \<open>private_key_file\<close> (which may be \<open>None\<close>) or \<open>password\<close>.
\<close>

datatype credential = private_key_file "string option" | password string

record ssh_params =
  hostname :: string
  username :: string
  host_key_policy :: MissingHostKey
  credential :: credential

definition params_of :: "RemoteExecutor \<Rightarrow> node \<Rightarrow> ssh_params" where
  "params_of self node =
     \<lparr> hostname = ip node,
       username = sshuser node,
       host_key_policy = missing_host_key self,
       credential = (case sshpass node of
                       None \<Rightarrow> private_key_file (ssh_path_to_private_key self)
                     | Some p \<Rightarrow> password p) \<rparr>"

text \<open>
  The entry stored for one node: the dictionary with \<open>ret_code\<close>, \<open>stdout\<close> and
  \<open>stderr\<close>, or the one with \<open>ret_code\<close> and \<open>error\<close>.
\<close>

datatype exec_result =
    Completed (ret_code: int) (stdout: string) (stderr: string)
  | Errored (ret_code: int) (err: string)

text \<open>
  The SSH library and the remote hosts are outside the repository. \<open>shell_run i p c\<close>
  is what the \<open>i\<close>-th session of one call of \<open>execute\<close>, opened with the parameters
  \<open>p\<close>, does with the command \<open>c\<close>: it raises an exception (\<open>Inl\<close> of its text, as
  \<open>str(e)\<close> gives it) or returns the return code and the two byte strings. \<open>decode\<close>
  is \<open>bytes.decode\<close>, which raises on bytes that are not valid text. Constructing
  the shell object and leaving the \<open>with\<close> block, which closes the connection, are
  taken not to raise; \<open>print\<close> is left out.

  The body of the \<open>try\<close> statement: any exception of the session or of either
  \<open>decode\<close> ends in the \<open>except Exception\<close> branch.
\<close>

type_synonym shell = "nat \<Rightarrow> ssh_params \<Rightarrow> string list \<Rightarrow> string + (int \<times> string \<times> string)"
type_synonym decoder = "string \<Rightarrow> string + string"

definition run_node :: "shell \<Rightarrow> decoder \<Rightarrow> nat \<Rightarrow> ssh_params \<Rightarrow> string list \<Rightarrow> exec_result" where
  "run_node shell_run decode i params cmd_full =
     (case shell_run i params cmd_full of
        Inl e \<Rightarrow> Errored 1 e
      | Inr (return_code, output, stderr_output) \<Rightarrow>
          (case decode output of
             Inl e \<Rightarrow> Errored 1 e
           | Inr out \<Rightarrow>
               (case decode stderr_output of
                  Inl e \<Rightarrow> Errored 1 e
                | Inr serr \<Rightarrow> Completed return_code out serr)))"

text \<open>
  The loop \<open>for node in nodes\<close>. Its state is the dictionary \<open>results\<close>, keyed by
  \<open>node.ip\<close>, together with the list of the sessions opened so far, which the
  Python does not keep: it records what the function did to the outside.
\<close>

type_synonym results = "(string \<times> exec_result) list"

fun execute_loop ::
    "shell \<Rightarrow> decoder \<Rightarrow> RemoteExecutor \<Rightarrow> string list \<Rightarrow> node list \<Rightarrow> nat \<Rightarrow>
     results \<times> ssh_params list \<Rightarrow> results \<times> ssh_params list" where
  "execute_loop shell_run decode self cmd_full [] i (results, sessions) = (results, sessions)"
| "execute_loop shell_run decode self cmd_full (node # rest) i (results, sessions) =
     (let params = params_of self node
      in execute_loop shell_run decode self cmd_full rest (Suc i)
           (dict_set (ip node) (run_node shell_run decode i params cmd_full) results,
            sessions @ [params]))"

text \<open>
  \<open>execute(self, cmd, nodes=None, debug=False)\<close>. In \<open>nodes or self.nodes\<close> an empty
  list counts as false, like \<open>None\<close>.
\<close>

definition execute ::
    "shell \<Rightarrow> decoder \<Rightarrow> RemoteExecutor \<Rightarrow> string \<Rightarrow> node list option \<Rightarrow>
     results \<times> ssh_params list" where
  "execute shell_run decode self cmd nodes_arg =
     (let targets = (case nodes_arg of
                       None \<Rightarrow> nodes self
                     | Some [] \<Rightarrow> nodes self
                     | Some ns \<Rightarrow> ns);
          cmd_full = PREFIX @ [cmd]
      in execute_loop shell_run decode self cmd_full targets 0 ([], []))"

section \<open>policy/policy_runner.py\<close>

subsection \<open>Documents and schemas\<close>

text \<open>
  A policy is what the YAML loader returns: \<open>None\<close>, a boolean, a number, a string, a
  list or a dictionary with string keys. Numbers are exact rationals.
\<close>

datatype json =
    JNull
  | JBool bool
  | JNum rat
  | JStr string
  | JArr "json list"
  | JObj "(string \<times> json) list"

text \<open>
  The schema is a dictionary as well, read by the validator of the \<open>jsonschema\<close>
  library. It is kept as data: a schema is the list of its keywords, in the order of
  the source, and each keyword carries its value. \<open>Type\<close> holds the list of the
  type names (one name for a string value). A \<open>$ref\<close> holds the JSON pointer as
  written together with the schema the pointer resolves to, which is one of the
  entries of \<open>definitions\<close> below; no entry refers to itself.
\<close>

datatype jtype = T_object | T_array | T_string | T_number | T_boolean | T_null

datatype kw =
    Title string
  | Type "jtype list"
  | Ref string "kw list"
  | Properties "(string \<times> kw list) list"
  | AdditionalProperties bool
  | Required "string list"
  | Items "kw list"
  | OneOf "kw list list"
  | Enum "json list"
  | Definitions "(string \<times> kw list) list"

subsection \<open>The validator\<close>

text \<open>
  \<open>jsonschema.validate(policy, schema)\<close> is not code of the repository. The model
  follows the library's rules for the keywords the schema uses (JSON Schema draft 4,
  the library's default for a schema without \<open>$schema\<close>):
  \<^item> \<open>type\<close>: the instance has one of the listed types; a Python \<open>bool\<close> is not a
    \<open>number\<close>;
  \<^item> \<open>properties\<close>, \<open>additionalProperties\<close>, \<open>required\<close> constrain dictionaries
    only, \<open>items\<close> lists only; other instances pass;
  \<^item> \<open>additionalProperties: False\<close> rejects a dictionary with a key that the
    sibling \<open>properties\<close> does not list;
  \<^item> \<open>oneOf\<close>: exactly one of the schemas accepts the instance;
  \<^item> \<open>enum\<close>: the instance is one of the listed values;
  \<^item> a schema with a \<open>$ref\<close> is validated as the schema referred to and its other
    keywords are ignored;
  \<^item> \<open>title\<close> and \<open>definitions\<close> check nothing.
\<close>

fun is_type :: "json \<Rightarrow> jtype \<Rightarrow> bool" where
  "is_type (JObj _) T_object = True"
| "is_type (JArr _) T_array = True"
| "is_type (JStr _) T_string = True"
| "is_type (JNum _) T_number = True"
| "is_type (JBool _) T_boolean = True"
| "is_type JNull T_null = True"
| "is_type _ _ = False"

fun ref_of :: "kw list \<Rightarrow> kw list option" where
  "ref_of [] = None"
| "ref_of (Ref _ target # _) = Some target"
| "ref_of (_ # ks) = ref_of ks"

fun properties_of :: "kw list \<Rightarrow> (string \<times> kw list) list" where
  "properties_of [] = []"
| "properties_of (Properties ps # _) = ps"
| "properties_of (_ # ks) = properties_of ks"

lemma ref_of_size: "ref_of s = Some t \<Longrightarrow> size_list size t < size_list size s"
  by (induction s rule: ref_of.induct) auto

lemma size_list_elem: "x \<in> set xs \<Longrightarrow> f x \<le> size_list f xs"
  by (induction xs) auto

function valid :: "kw list \<Rightarrow> json \<Rightarrow> bool"
  and valid_kw :: "kw list \<Rightarrow> kw \<Rightarrow> json \<Rightarrow> bool" where
  "valid schema instance =
     (case ref_of schema of
        Some target \<Rightarrow> valid target instance
      | None \<Rightarrow> list_all (\<lambda>k. valid_kw schema k instance) schema)"
| "valid_kw schema (Title _) instance = True"
| "valid_kw schema (Definitions _) instance = True"
| "valid_kw schema (Type types) instance = list_ex (is_type instance) types"
| "valid_kw schema (Ref _ target) instance = valid target instance"
| "valid_kw schema (Properties properties) instance =
     (case instance of
        JObj kvs \<Rightarrow>
          list_all (\<lambda>(property, subschema).
                      case map_of kvs property of
                        None \<Rightarrow> True
                      | Some v \<Rightarrow> valid subschema v) properties
      | _ \<Rightarrow> True)"
| "valid_kw schema (AdditionalProperties aP) instance =
     (case instance of
        JObj kvs \<Rightarrow>
          aP \<or> list_all (\<lambda>property. property \<in> set (map fst (properties_of schema)))
                  (map fst kvs)
      | _ \<Rightarrow> True)"
| "valid_kw schema (Required required) instance =
     (case instance of
        JObj kvs \<Rightarrow> list_all (\<lambda>property. property \<in> set (map fst kvs)) required
      | _ \<Rightarrow> True)"
| "valid_kw schema (Items items) instance =
     (case instance of
        JArr xs \<Rightarrow> list_all (valid items) xs
      | _ \<Rightarrow> True)"
| "valid_kw schema (OneOf oneOf) instance =
     (length (filter (\<lambda>subschema. valid subschema instance) oneOf) = 1)"
| "valid_kw schema (Enum enums) instance = (instance \<in> set enums)"
  by pat_completeness auto
termination
  apply (relation "measure (\<lambda>x. case x of
            Inl (schema, _) \<Rightarrow> 2 * size_list size schema + 1
          | Inr (_, k, _) \<Rightarrow> 2 * size k)")
        apply simp
       apply (auto dest: ref_of_size)
  subgoal for schema k
    using size_list_elem [of k schema size] by simp
  subgoal for properties kvs property subschema v
    using size_list_elem [of "(property, subschema)" properties
            "size_prod (\<lambda>x. 0) (size_list size)"] by simp
  subgoal for oneOf subschema
    using size_list_elem [of subschema oneOf "size_list size"] by simp
  done

subsection \<open>get_schema\<close>

text \<open>
  The entries of \<open>definitions\<close>, each under its name in the source, and then the
  dictionary that \<open>get_schema\<close> returns. An entry stands before the entries that
  refer to it.
\<close>

definition config :: "kw list" where
  "config =
     [Type [T_object],
      AdditionalProperties False,
      Properties
        [(''minSecondsBetweenRuns'', [Type [T_number]]),
         (''maxSecondsBetweenRuns'', [Type [T_number]])],
      Required [''minSecondsBetweenRuns'']]"

definition filterPropertyNode :: "kw list" where
  "filterPropertyNode =
     [Type [T_object],
      AdditionalProperties False,
      Properties
        [(''property'',
          [Type [T_object],
           AdditionalProperties False,
           Properties
             [(''name'',
               [Type [T_string],
                Enum
                  [JStr ''name'',
                   JStr ''ip'',
                   JStr ''group'',
                   JStr ''az'',
                   JStr ''state'']]),
              (''value'', [Type [T_string]])],
           Required [''name'', ''value'']])],
      Required [''property'']]"

definition time :: "kw list" where
  "time =
     [Type [T_object],
      AdditionalProperties False,
      Properties
        [(''hour'', [Type [T_number]]),
         (''minute'', [Type [T_number]]),
         (''second'', [Type [T_number]])],
      Required [''hour'', ''minute'', ''second'']]"

definition filterDayTime :: "kw list" where
  "filterDayTime =
     [Type [T_object],
      AdditionalProperties False,
      Properties
        [(''dayTime'',
          [Type [T_object],
           AdditionalProperties False,
           Properties
             [(''onlyDays'',
               [Type [T_array],
                Items
                  [Type [T_string],
                   Enum
                     [JStr ''monday'',
                      JStr ''tuesday'',
                      JStr ''wednesday'',
                      JStr ''thursday'',
                      JStr ''friday'',
                      JStr ''saturday'',
                      JStr ''sunday'']]]),
              (''startTime'', [Type [T_object], Ref ''#/definitions/time'' time]),
              (''endTime'', [Type [T_object], Ref ''#/definitions/time'' time])],
           Required [''onlyDays'', ''startTime'', ''endTime'']])],
      Required [''dayTime'']]"

definition filterRandomSample :: "kw list" where
  "filterRandomSample =
     [Type [T_object],
      AdditionalProperties False,
      Properties
        [(''randomSample'',
          [Type [T_object],
           AdditionalProperties False,
           Properties
             [(''size'', [Type [T_number]]),
              (''ratio'', [Type [T_number]])]])],
      Required [''randomSample'']]"

definition filterProbability :: "kw list" where
  "filterProbability =
     [Type [T_object],
      AdditionalProperties False,
      Properties
        [(''probability'',
          [Type [T_object],
           AdditionalProperties False,
           Properties
             [(''probabilityPassAll'', [Type [T_number]])],
           Required [''probabilityPassAll'']])],
      Required [''probability'']]"

definition actionStartNode :: "kw list" where
  "actionStartNode =
     [Type [T_object],
      AdditionalProperties False,
      Properties
        [(''start'', [Type [T_object, T_null], AdditionalProperties False])],
      Required [''start'']]"

definition actionStopNode :: "kw list" where
  "actionStopNode =
     [Type [T_object],
      AdditionalProperties False,
      Properties
        [(''stop'',
          [Type [T_object],
           AdditionalProperties False,
           Properties
             [(''force'', [Type [T_boolean]])]])],
      Required [''stop'']]"

definition actionExecuteNode :: "kw list" where
  "actionExecuteNode =
     [Type [T_object],
      AdditionalProperties False,
      Properties
        [(''execute'',
          [Type [T_object],
           AdditionalProperties False,
           Properties
             [(''cmd'', [Type [T_string]])],
           Required [''cmd'']])],
      Required [''execute'']]"

definition actionWait :: "kw list" where
  "actionWait =
     [Type [T_object],
      AdditionalProperties False,
      Properties
        [(''wait'',
          [Type [T_object],
           AdditionalProperties False,
           Properties
             [(''seconds'', [Type [T_number]])],
           Required [''seconds'']])],
      Required [''wait'']]"

definition nodeScenario :: "kw list" where
  "nodeScenario =
     [Type [T_object],
      AdditionalProperties False,
      Properties
        [(''name'', [Type [T_string]]),
         (''description'', [Type [T_string]]),
         (''match'',
          [Type [T_array],
           Items
             [OneOf
                [[Ref ''#/definitions/filterPropertyNode'' filterPropertyNode]]]]),
         (''filters'',
          [Type [T_array],
           Items
             [Type [T_object],
              OneOf
                [[Ref ''#/definitions/filterPropertyNode'' filterPropertyNode],
                 [Ref ''#/definitions/filterDayTime'' filterDayTime],
                 [Ref ''#/definitions/filterRandomSample'' filterRandomSample],
                 [Ref ''#/definitions/filterProbability'' filterProbability]]]]),
         (''actions'',
          [Type [T_array],
           Items
             [Type [T_object],
              OneOf
                [[Ref ''#/definitions/actionStartNode'' actionStartNode],
                 [Ref ''#/definitions/actionStopNode'' actionStopNode],
                 [Ref ''#/definitions/actionExecuteNode'' actionExecuteNode],
                 [Ref ''#/definitions/actionWait'' actionWait]]]])],
      Required [''name'', ''match'', ''filters'', ''actions'']]"

definition matchPodNamespace :: "kw list" where
  "matchPodNamespace =
     [Type [T_object],
      AdditionalProperties False,
      Properties
        [(''namespace'',
          [Type [T_object],
           AdditionalProperties False,
           Properties
             [(''name'', [Type [T_string]])],
           Required [''name'']])],
      Required [''namespace'']]"

definition matchPodDeploymentAndNamespace :: "kw list" where
  "matchPodDeploymentAndNamespace =
     [Type [T_object],
      AdditionalProperties False,
      Properties
        [(''deployment'',
          [Type [T_object],
           AdditionalProperties False,
           Properties
             [(''name'', [Type [T_string]]),
              (''namespace'', [Type [T_string]])],
           Required [''name'', ''namespace'']])],
      Required [''deployment'']]"

definition matchPodLabelsAndNamespace :: "kw list" where
  "matchPodLabelsAndNamespace =
     [Type [T_object],
      AdditionalProperties False,
      Properties
        [(''labels'',
          [Type [T_object],
           AdditionalProperties False,
           Properties
             [(''selector'', [Type [T_string]]),
              (''namespace'', [Type [T_string]])],
           Required [''selector'', ''namespace'']])],
      Required [''labels'']]"

definition filterPropertyPod :: "kw list" where
  "filterPropertyPod =
     [Type [T_object],
      AdditionalProperties False,
      Properties
        [(''property'',
          [Type [T_object],
           AdditionalProperties False,
           Properties
             [(''name'', [Type [T_string], Enum [JStr ''name'', JStr ''state'']]),
              (''value'', [Type [T_string]])],
           Required [''name'', ''value'']])],
      Required [''property'']]"

definition actionKillPod :: "kw list" where
  "actionKillPod =
     [Type [T_object],
      AdditionalProperties False,
      Properties
        [(''kill'',
          [Type [T_object],
           AdditionalProperties False,
           Properties
             [(''probability'', [Type [T_number]]),
              (''force'', [Type [T_boolean]])]])],
      Required [''kill'']]"

definition podScenario :: "kw list" where
  "podScenario =
     [Type [T_object],
      AdditionalProperties False,
      Properties
        [(''name'', [Type [T_string]]),
         (''description'', [Type [T_string]]),
         (''match'',
          [Type [T_array],
           Items
             [OneOf
                [[Ref ''#/definitions/matchPodNamespace'' matchPodNamespace],
                 [Ref ''#/definitions/matchPodDeploymentAndNamespace'' matchPodDeploymentAndNamespace],
                 [Ref ''#/definitions/matchPodLabelsAndNamespace'' matchPodLabelsAndNamespace]]]]),
         (''filters'',
          [Type [T_array],
           Items
             [Type [T_object],
              OneOf
                [[Ref ''#/definitions/filterPropertyPod'' filterPropertyPod],
                 [Ref ''#/definitions/filterDayTime'' filterDayTime],
                 [Ref ''#/definitions/filterRandomSample'' filterRandomSample],
                 [Ref ''#/definitions/filterProbability'' filterProbability]]]]),
         (''actions'',
          [Type [T_array],
           Items
             [Type [T_object],
              OneOf
                [[Ref ''#/definitions/actionKillPod'' actionKillPod],
                 [Ref ''#/definitions/actionWait'' actionWait]]]])],
      Required [''name'', ''match'', ''filters'', ''actions'']]"

definition get_schema :: "kw list" where
  "get_schema =
     [Title ''PowerfulSeal config'',
      Type [T_object],
      Properties
        [(''config'', [Type [T_object], Ref ''#/definitions/config'' config]),
         (''nodeScenarios'',
          [Type [T_array],
           Items
             [Type [T_object], Ref ''#/definitions/nodeScenario'' nodeScenario]]),
         (''podScenarios'',
          [Type [T_array],
           Items
             [Type [T_object], Ref ''#/definitions/podScenario'' podScenario]])],
      Definitions
        [(''config'', config),
         (''nodeScenario'', nodeScenario),
         (''filterRandomSample'', filterRandomSample),
         (''filterProbability'', filterProbability),
         (''time'', time),
         (''filterDayTime'', filterDayTime),
         (''filterPropertyNode'', filterPropertyNode),
         (''actionStartNode'', actionStartNode),
         (''actionStopNode'', actionStopNode),
         (''actionExecuteNode'', actionExecuteNode),
         (''actionWait'', actionWait),
         (''podScenario'', podScenario),
         (''matchPodNamespace'', matchPodNamespace),
         (''matchPodDeploymentAndNamespace'', matchPodDeploymentAndNamespace),
         (''matchPodLabelsAndNamespace'', matchPodLabelsAndNamespace),
         (''filterPropertyPod'', filterPropertyPod),
         (''actionKillPod'', actionKillPod)]]"

subsection \<open>validate_file\<close>

text \<open>
  \<open>validate_file(filename, schema=None)\<close> with the loaded document in place of the
  file. In \<open>schema or cls.get_schema()\<close> an empty schema counts as false, like
  \<open>None\<close>. The validator raises on an invalid document; otherwise the document is
  returned.
\<close>

definition validate_file :: "json \<Rightarrow> kw list option \<Rightarrow> error + json" where
  "validate_file policy schema_arg =
     (let schema = (case schema_arg of
                      None \<Rightarrow> get_schema
                    | Some [] \<Rightarrow> get_schema
                    | Some s \<Rightarrow> s)
      in if valid schema policy then Inr policy else Inl ValidationError)"

subsection \<open>run\<close>

text \<open>
  \<open>d.get(key, default)\<close>: only a dictionary has the method. Iterating over a
  dictionary gives its keys, over a string its characters; \<open>None\<close>, booleans and
  numbers are not iterable.
\<close>

definition dict_get :: "json \<Rightarrow> string \<Rightarrow> json \<Rightarrow> error + json" where
  "dict_get d key dflt =
     (case d of
        JObj kvs \<Rightarrow> Inr (case map_of kvs key of None \<Rightarrow> dflt | Some v \<Rightarrow> v)
      | _ \<Rightarrow> Inl AttributeError)"

definition iterate :: "json \<Rightarrow> error + json list" where
  "iterate v =
     (case v of
        JArr xs \<Rightarrow> Inr xs
      | JObj kvs \<Rightarrow> Inr (map (\<lambda>kv. JStr (fst kv)) kvs)
      | JStr s \<Rightarrow> Inr (map (\<lambda>c. JStr [c]) s)
      | _ \<Rightarrow> Inl TypeError)"

text \<open>
  The classes \<open>NodeScenario\<close> and \<open>PodScenario\<close> are not among the sources. A scenario
  engine is the pair of the \<open>name\<close> and \<open>schema\<close> it was built from; the inventory,
  driver and executor handed to every engine alike are left out.
\<close>

datatype scenario = NodeScenario json json | PodScenario json json

fun build_scenarios :: "(json \<Rightarrow> json \<Rightarrow> scenario) \<Rightarrow> json list \<Rightarrow> error + scenario list" where
  "build_scenarios mk [] = Inr []"
| "build_scenarios mk (item # items) =
     (case dict_get item ''name'' JNull of
        Inl e \<Rightarrow> Inl e
      | Inr n \<Rightarrow>
          (case build_scenarios mk items of
             Inl e \<Rightarrow> Inl e
           | Inr scenarios \<Rightarrow> Inr (mk n item # scenarios)))"

definition scenarios_of ::
    "(json \<Rightarrow> json \<Rightarrow> scenario) \<Rightarrow> json \<Rightarrow> string \<Rightarrow> error + scenario list" where
  "scenarios_of mk policy key =
     (case dict_get policy key (JArr []) of
        Inl e \<Rightarrow> Inl e
      | Inr v \<Rightarrow> (case iterate v of Inl e \<Rightarrow> Inl e | Inr items \<Rightarrow> build_scenarios mk items))"

text \<open>
  \<open>random.uniform(a, b)\<close> is \<open>a + (b - a) * random()\<close>, where \<open>random()\<close> lies in
  \<open>[0, 1)\<close>; the arithmetic takes numbers and booleans and raises TypeError on
  anything else. \<open>int(x)\<close> drops the fraction, rounding towards zero.
\<close>

definition number_of :: "json \<Rightarrow> error + rat" where
  "number_of v =
     (case v of
        JNum x \<Rightarrow> Inr x
      | JBool b \<Rightarrow> Inr (if b then 1 else 0)
      | _ \<Rightarrow> Inl TypeError)"

definition uniform :: "json \<Rightarrow> json \<Rightarrow> rat \<Rightarrow> error + rat" where
  "uniform a b r =
     (case number_of b of
        Inl e \<Rightarrow> Inl e
      | Inr y \<Rightarrow> (case number_of a of Inl e \<Rightarrow> Inl e | Inr x \<Rightarrow> Inr (x + (y - x) * r)))"

definition py_int :: "rat \<Rightarrow> int" where
  "py_int x = (if 0 \<le> x then \<lfloor>x\<rfloor> else \<lceil>x\<rceil>)"

text \<open>
  What a run does to the outside, in order: a call of \<open>scenario.execute()\<close>, a call
  of \<open>time.sleep\<close> with its argument, a call of \<open>inventory.sync()\<close>. The assignment
  \<open>loops -= 1\<close> is recorded as an event too, so that its place in a round can be
  stated. The collaborators are taken to return; \<open>time.sleep\<close> raises ValueError on
  a negative argument.
\<close>

datatype event = Execute scenario | Sleep int | InventorySync | LoopsDecrement

datatype outcome = Returned "scenario list \<times> scenario list" | Raised error

text \<open>The assignment \<open>sleep_time = int(random.uniform(wait_min, wait_max))\<close>.\<close>

definition sleep_time :: "json \<Rightarrow> json \<Rightarrow> rat \<Rightarrow> error + int" where
  "sleep_time wait_min wait_max r =
     (case uniform wait_min wait_max r of
        Inl e \<Rightarrow> Inl e
      | Inr u \<Rightarrow> Inr (py_int u))"

text \<open>
  The \<open>while\<close> loop. \<open>random i\<close> is the value of the \<open>i\<close>-th call of \<open>random()\<close>. The
  loop may run forever, so it takes fuel, one unit for each test of the loop
  condition; \<open>None\<close> is a run that has not ended when the fuel is spent.
\<close>

fun run_loop ::
    "nat \<Rightarrow> (nat \<Rightarrow> rat) \<Rightarrow> json \<Rightarrow> json \<Rightarrow> scenario list \<Rightarrow> scenario list \<Rightarrow>
     nat \<Rightarrow> int option \<Rightarrow> event list \<Rightarrow> (outcome \<times> event list) option" where
  "run_loop 0 random wait_min wait_max node_scenarios pod_scenarios i loops trace = None"
| "run_loop (Suc fuel) random wait_min wait_max node_scenarios pod_scenarios i loops trace =
     (if (case loops of None \<Rightarrow> True | Some n \<Rightarrow> 0 < n)
      then
        (let executed = trace @ map Execute node_scenarios @ map Execute pod_scenarios
         in case sleep_time wait_min wait_max (random i) of
              Inl e \<Rightarrow> Some (Raised e, executed)
            | Inr t \<Rightarrow>
                if t < 0 then Some (Raised ValueError, executed)
                else run_loop fuel random wait_min wait_max node_scenarios pod_scenarios
                       (Suc i)
                       (case loops of None \<Rightarrow> None | Some n \<Rightarrow> Some (n - 1))
                       (executed @ [Sleep t, InventorySync] @
                          (case loops of None \<Rightarrow> [] | Some n \<Rightarrow> [LoopsDecrement])))
      else Some (Returned (node_scenarios, pod_scenarios), trace))"

text \<open>The statements of \<open>run\<close> before the loop.\<close>

definition wait_min_of :: "json \<Rightarrow> error + json" where
  "wait_min_of policy =
     (case dict_get policy ''config'' (JObj []) of
        Inl e \<Rightarrow> Inl e
      | Inr conf \<Rightarrow> dict_get conf ''minSecondsBetweenRuns'' (JNum 0))"

definition wait_max_of :: "json \<Rightarrow> error + json" where
  "wait_max_of policy =
     (case dict_get policy ''config'' (JObj []) of
        Inl e \<Rightarrow> Inl e
      | Inr conf \<Rightarrow> dict_get conf ''maxSecondsBetweenRuns'' (JNum 300))"

definition run :: "nat \<Rightarrow> (nat \<Rightarrow> rat) \<Rightarrow> json \<Rightarrow> int option \<Rightarrow> (outcome \<times> event list) option" where
  "run fuel random policy loops =
     (case wait_min_of policy of
        Inl e \<Rightarrow> Some (Raised e, [])
      | Inr wait_min \<Rightarrow>
     (case wait_max_of policy of
        Inl e \<Rightarrow> Some (Raised e, [])
      | Inr wait_max \<Rightarrow>
     (case scenarios_of NodeScenario policy ''nodeScenarios'' of
        Inl e \<Rightarrow> Some (Raised e, [])
      | Inr node_scenarios \<Rightarrow>
     (case scenarios_of PodScenario policy ''podScenarios'' of
        Inl e \<Rightarrow> Some (Raised e, [])
      | Inr pod_scenarios \<Rightarrow>
          run_loop fuel random wait_min wait_max node_scenarios pod_scenarios 0 loops []))))"


section \<open>Properties of read_inventory_file_to_dict\<close>

subsection \<open>Dictionaries and split\<close>

lemma map_of_dict_set: "map_of (dict_set k v d) = (map_of d)(k \<mapsto> v)"
  by (induction d) (auto simp: fun_eq_iff)

lemma length_split: "length (split sep s) = Suc (count_list s sep)"
  by (induction s) (auto split: list.splits)

lemma split_no_sep: "p \<in> set (split sep s) \<Longrightarrow> sep \<notin> set p"
  by (induction s arbitrary: p) (auto split: list.splits if_splits)

lemma read_pieces_ok:
  "read_pieces ps d = Inr d' \<Longrightarrow> \<forall>p \<in> set ps. p = '' '' \<or> count_list p (CHR ''='') = 1"
proof (induction ps arbitrary: d)
  case Nil
  then show ?case by simp
next
  case (Cons p ps)
  show ?case
  proof (cases "p = '' ''")
    case True
    with Cons show ?thesis by simp
  next
    case False
    with Cons.prems obtain k v where kv: "split (CHR ''='') p = [k, v]"
      and rest: "read_pieces ps (dict_set k v d) = Inr d'"
      by (auto split: list.splits)
    from kv have "count_list p (CHR ''='') = 1"
      using length_split [of "CHR ''=''" p] by simp
    with Cons.IH [OF rest] show ?thesis by simp
  qed
qed

lemma read_record_ok:
  assumes "read_record line = Inr d"
  shows "\<forall>tok \<in> set (tl (split (CHR '' '') line)). count_list tok (CHR ''='') = 1"
proof
  fix tok assume tok: "tok \<in> set (tl (split (CHR '' '') line))"
  then have "tok \<in> set (split (CHR '' '') line)"
    by (cases "split (CHR '' '') line") auto
  then have "CHR '' '' \<notin> set tok" by (rule split_no_sep)
  then have "tok \<noteq> '' ''" by auto
  moreover from assms tok have "tok = '' '' \<or> count_list tok (CHR ''='') = 1"
    using read_pieces_ok by (fastforce simp: read_record_def Let_def)
  ultimately show "count_list tok (CHR ''='') = 1" by simp
qed

lemma read_lines_precondition:
  "read_lines ls (sect, g) = Inr g' \<Longrightarrow> i < length ls \<Longrightarrow> record_line (ls ! i) \<Longrightarrow>
     (sect \<in> fst ` set g \<or> (\<exists>j<i. is_header (rstrip (ls ! j)))) \<and>
     (\<forall>tok \<in> set (tl (split (CHR '' '') (rstrip (ls ! i)))). count_list tok (CHR ''='') = 1)"
proof (induction ls arbitrary: sect g i)
  case Nil
  then show ?case by simp
next
  case (Cons l ls)
  show ?case
  proof (cases "is_header (rstrip l)")
    case True
    with Cons.prems(3) obtain i' where i: "i = Suc i'"
      by (cases i) (auto simp: record_line_def)
    from True Cons.prems(1)
    have "read_lines ls (header_name (rstrip l), dict_set (header_name (rstrip l)) [] g) = Inr g'"
      by (simp add: Let_def)
    from Cons.IH [OF this, of i'] Cons.prems(2,3) i True show ?thesis by auto
  next
    case notheader: False
    show ?thesis
    proof (cases "rstrip l = []")
      case True
      with Cons.prems(3) obtain i' where i: "i = Suc i'"
        by (cases i) (auto simp: record_line_def)
      from True notheader Cons.prems(1) have "read_lines ls (sect, g) = Inr g'"
        by (simp add: Let_def)
      from Cons.IH [OF this, of i'] Cons.prems(2,3) i show ?thesis by auto
    next
      case False
      with notheader Cons.prems(1) obtain d recs where
        d: "read_record (rstrip l) = Inr d" and recs: "map_of g sect = Some recs"
        and rest: "read_lines ls (sect, dict_set sect (recs @ [d]) g) = Inr g'"
        by (auto simp: Let_def split: sum.splits option.splits)
      from recs have key: "sect \<in> fst ` set g" by (rule map_of_SomeD [THEN imageI, of _ _ _ fst, simplified])
      show ?thesis
      proof (cases i)
        case 0
        with key read_record_ok [OF d] show ?thesis by simp
      next
        case (Suc i')
        from Cons.IH [OF rest, of i'] Cons.prems(2,3) Suc key show ?thesis by auto
      qed
    qed
  qed
qed

lemma read_lines_other_sections:
  "read_lines ls (sect, g) = Inr g' \<Longrightarrow> sect \<noteq> s \<Longrightarrow>
   \<forall>l \<in> set ls. is_header (rstrip l) \<longrightarrow> header_name (rstrip l) \<noteq> s \<Longrightarrow>
   map_of g' s = map_of g s"
proof (induction ls arbitrary: sect g)
  case Nil
  then show ?case by simp
next
  case (Cons l ls)
  show ?case
  proof (cases "is_header (rstrip l)")
    case True
    with Cons.prems(1)
    have rest: "read_lines ls (header_name (rstrip l), dict_set (header_name (rstrip l)) [] g) = Inr g'"
      by (simp add: Let_def)
    from True Cons.prems(3) have ne: "header_name (rstrip l) \<noteq> s" by simp
    from Cons.IH [OF rest ne] Cons.prems(3) ne show ?thesis
      by (simp add: map_of_dict_set)
  next
    case notheader: False
    show ?thesis
    proof (cases "rstrip l = []")
      case True
      with notheader Cons.prems(1) have "read_lines ls (sect, g) = Inr g'"
        by (simp add: Let_def)
      from Cons.IH [OF this Cons.prems(2)] Cons.prems(3) show ?thesis by simp
    next
      case False
      with notheader Cons.prems(1) obtain d recs where
        rest: "read_lines ls (sect, dict_set sect (recs @ [d]) g) = Inr g'"
        by (auto simp: Let_def split: sum.splits option.splits)
      from Cons.IH [OF rest Cons.prems(2)] Cons.prems(2,3) show ?thesis
        by (simp add: map_of_dict_set)
    qed
  qed
qed

lemma read_lines_current_section:
  "read_lines ls (s, g) = Inr g' \<Longrightarrow> map_of g s = Some recs \<Longrightarrow>
   \<forall>l \<in> set ls. is_header (rstrip l) \<longrightarrow> header_name (rstrip l) \<noteq> s \<Longrightarrow>
   \<exists>new. map_of g' s = Some (recs @ new) \<and>
     map Inr new =
       map read_record (filter (\<lambda>l. l \<noteq> []) (takeWhile (\<lambda>l. \<not> is_header l) (map rstrip ls)))"
proof (induction ls arbitrary: g recs)
  case Nil
  then show ?case by simp
next
  case (Cons l ls)
  show ?case
  proof (cases "is_header (rstrip l)")
    case True
    with Cons.prems(1)
    have rest: "read_lines ls (header_name (rstrip l), dict_set (header_name (rstrip l)) [] g) = Inr g'"
      by (simp add: Let_def)
    from True Cons.prems(3) have ne: "header_name (rstrip l) \<noteq> s" by simp
    from read_lines_other_sections [OF rest ne] Cons.prems(2,3) ne
    have "map_of g' s = Some recs" by (simp add: map_of_dict_set)
    with True show ?thesis by simp
  next
    case notheader: False
    show ?thesis
    proof (cases "rstrip l = []")
      case True
      with notheader Cons.prems(1) have "read_lines ls (s, g) = Inr g'"
        by (simp add: Let_def)
      from Cons.IH [OF this Cons.prems(2)] Cons.prems(3) True notheader show ?thesis by simp
    next
      case False
      with notheader Cons.prems(1,2) obtain d where
        d: "read_record (rstrip l) = Inr d"
        and rest: "read_lines ls (s, dict_set s (recs @ [d]) g) = Inr g'"
        by (auto simp: Let_def split: sum.splits option.splits)
      have "map_of (dict_set s (recs @ [d]) g) s = Some (recs @ [d])"
        by (simp add: map_of_dict_set)
      from Cons.IH [OF rest this] Cons.prems(3) obtain new where
        new: "map_of g' s = Some ((recs @ [d]) @ new)"
          "map Inr new = map read_record
             (filter (\<lambda>l. l \<noteq> []) (takeWhile (\<lambda>l. \<not> is_header l) (map rstrip ls)))"
        by auto
      show ?thesis
      proof (intro exI conjI)
        show "map_of g' s = Some (recs @ d # new)" using new(1) by simp
        show "map Inr (d # new) = map read_record
           (filter (\<lambda>l. l \<noteq> []) (takeWhile (\<lambda>l. \<not> is_header l) (map rstrip (l # ls))))"
          using new(2) d False notheader by simp
      qed
    qed
  qed
qed

lemma read_lines_after_header:
  "read_lines (before @ h # after) (sect, g) = Inr g' \<Longrightarrow> is_header (rstrip h) \<Longrightarrow>
   \<forall>l \<in> set after. is_header (rstrip l) \<longrightarrow> header_name (rstrip l) \<noteq> header_name (rstrip h) \<Longrightarrow>
   \<exists>records. map_of g' (header_name (rstrip h)) = Some records \<and>
     map Inr records =
       map read_record (filter (\<lambda>l. l \<noteq> []) (takeWhile (\<lambda>l. \<not> is_header l) (map rstrip after)))"
proof (induction before arbitrary: sect g)
  case Nil
  let ?s = "header_name (rstrip h)"
  from Nil have rest: "read_lines after (?s, dict_set ?s [] g) = Inr g'"
    by (simp add: Let_def)
  have "map_of (dict_set ?s [] g) ?s = Some []" by (simp add: map_of_dict_set)
  from read_lines_current_section [OF rest this Nil.prems(3)] show ?case by simp
next
  case (Cons l before)
  show ?case
  proof (cases "is_header (rstrip l)")
    case True
    with Cons.prems(1) have "read_lines (before @ h # after)
        (header_name (rstrip l), dict_set (header_name (rstrip l)) [] g) = Inr g'"
      by (simp add: Let_def)
    from Cons.IH [OF this Cons.prems(2,3)] show ?thesis .
  next
    case notheader: False
    show ?thesis
    proof (cases "rstrip l = []")
      case True
      with notheader Cons.prems(1) have "read_lines (before @ h # after) (sect, g) = Inr g'"
        by (simp add: Let_def)
      from Cons.IH [OF this Cons.prems(2,3)] show ?thesis .
    next
      case False
      with notheader Cons.prems(1) obtain d recs where
        "read_lines (before @ h # after) (sect, dict_set sect (recs @ [d]) g) = Inr g'"
        by (auto simp: Let_def split: sum.splits option.splits)
      from Cons.IH [OF this Cons.prems(2,3)] show ?thesis .
    qed
  qed
qed

lemma read_pieces_total:
  "\<forall>p \<in> set ps. count_list p (CHR ''='') = 1 \<Longrightarrow> \<exists>d'. read_pieces ps d = Inr d'"
proof (induction ps arbitrary: d)
  case Nil
  then show ?case by simp
next
  case (Cons p ps)
  then have "length (split (CHR ''='') p) = 2" by (simp add: length_split)
  then obtain k v where "split (CHR ''='') p = [k, v]"
    by (cases "split (CHR ''='') p" rule: list.exhaust; simp; metis length_0_conv length_Suc_conv)
  with Cons show ?case by simp
qed

lemma read_lines_total:
  "\<forall>i<length ls. record_line (ls ! i) \<longrightarrow>
     (sect \<in> fst ` set g \<or> (\<exists>j<i. is_header (rstrip (ls ! j)))) \<and>
     (\<forall>tok \<in> set (tl (split (CHR '' '') (rstrip (ls ! i)))). count_list tok (CHR ''='') = 1)
   \<Longrightarrow> \<exists>g'. read_lines ls (sect, g) = Inr g'"
proof (induction ls arbitrary: sect g)
  case Nil
  then show ?case by simp
next
  case (Cons l ls)
  show ?case
  proof (cases "is_header (rstrip l)")
    case True
    let ?s = "header_name (rstrip l)"
    have "\<exists>g'. read_lines ls (?s, dict_set ?s [] g) = Inr g'"
    proof (rule Cons.IH, intro allI impI)
      fix i assume i: "i < length ls" and rl: "record_line (ls ! i)"
      have "?s \<in> fst ` set (dict_set ?s [] g)"
        using map_of_dict_set [of ?s "[]" g] by (metis domI dom_map_of_conv_image_fst fun_upd_same)
      moreover from Cons.prems [rule_format, of "Suc i"] i rl
      have "\<forall>tok \<in> set (tl (split (CHR '' '') (rstrip (ls ! i)))). count_list tok (CHR ''='') = 1"
        by simp
      ultimately show "(?s \<in> fst ` set (dict_set ?s [] g) \<or> (\<exists>j<i. is_header (rstrip (ls ! j)))) \<and>
        (\<forall>tok \<in> set (tl (split (CHR '' '') (rstrip (ls ! i)))). count_list tok (CHR ''='') = 1)"
        by simp
    qed
    with True show ?thesis by (simp add: Let_def)
  next
    case notheader: False
    show ?thesis
    proof (cases "rstrip l = []")
      case True
      have "\<exists>g'. read_lines ls (sect, g) = Inr g'"
      proof (rule Cons.IH, intro allI impI)
        fix i assume i: "i < length ls" and rl: "record_line (ls ! i)"
        from Cons.prems [rule_format, of "Suc i"] i rl
        have *: "(sect \<in> fst ` set g \<or> (\<exists>j<Suc i. is_header (rstrip ((l # ls) ! j)))) \<and>
          (\<forall>tok \<in> set (tl (split (CHR '' '') (rstrip (ls ! i)))). count_list tok (CHR ''='') = 1)"
          by simp
        have "(\<exists>j<Suc i. is_header (rstrip ((l # ls) ! j))) \<Longrightarrow> (\<exists>j<i. is_header (rstrip (ls ! j)))"
        proof -
          assume "\<exists>j<Suc i. is_header (rstrip ((l # ls) ! j))"
          then obtain j where j: "j < Suc i" "is_header (rstrip ((l # ls) ! j))" by blast
          with notheader obtain j' where "j = Suc j'" by (cases j) auto
          with j show ?thesis by auto
        qed
        with * show "(sect \<in> fst ` set g \<or> (\<exists>j<i. is_header (rstrip (ls ! j)))) \<and>
          (\<forall>tok \<in> set (tl (split (CHR '' '') (rstrip (ls ! i)))). count_list tok (CHR ''='') = 1)"
          by blast
      qed
      with True notheader show ?thesis by (simp add: Let_def)
    next
      case False
      with notheader have rl: "record_line l" by (simp add: record_line_def)
      from Cons.prems [rule_format, of 0] rl
      have key: "sect \<in> fst ` set g"
        and toks: "\<forall>tok \<in> set (tl (split (CHR '' '') (rstrip l))). count_list tok (CHR ''='') = 1"
        by simp_all
      from toks obtain d where d: "read_record (rstrip l) = Inr d"
        using read_pieces_total by (fastforce simp: read_record_def Let_def)
      from key obtain recs where recs: "map_of g sect = Some recs"
        by (metis domD dom_map_of_conv_image_fst)
      let ?g = "dict_set sect (recs @ [d]) g"
      have "\<exists>g'. read_lines ls (sect, ?g) = Inr g'"
      proof (rule Cons.IH, intro allI impI)
        fix i assume i: "i < length ls" and rl: "record_line (ls ! i)"
        have "sect \<in> fst ` set ?g"
          using map_of_dict_set [of sect "recs @ [d]" g]
          by (metis domI dom_map_of_conv_image_fst fun_upd_same)
        moreover from Cons.prems [rule_format, of "Suc i"] i rl
        have "\<forall>tok \<in> set (tl (split (CHR '' '') (rstrip (ls ! i)))). count_list tok (CHR ''='') = 1"
          by simp
        ultimately show "(sect \<in> fst ` set ?g \<or> (\<exists>j<i. is_header (rstrip (ls ! j)))) \<and>
          (\<forall>tok \<in> set (tl (split (CHR '' '') (rstrip (ls ! i)))). count_list tok (CHR ''='') = 1)"
          by simp
      qed
      with False notheader d recs show ?thesis by (simp add: Let_def)
    qed
  qed
qed

subsection \<open>The parser on a repeated section\<close>

lemma parse_lines_append:
  "parse_lines (xs @ ys) st =
     (case parse_lines xs st of Inl e \<Rightarrow> Inl e | Inr st' \<Rightarrow> parse_lines ys st')"
  by (induction xs arbitrary: st) (auto split: sum.splits)

lemma parse_line_grows:
  assumes "parse_line l st = Inr st'"
  shows "set (sections st) \<subseteq> set (sections st') \<and>
         set (elements_added st) \<subseteq> set (elements_added st')"
  using assms
  by (auto simp: parse_line_def Let_def split: if_splits option.splits prod.splits)

lemma parse_lines_grows:
  "parse_lines ls st = Inr st' \<Longrightarrow>
   set (sections st) \<subseteq> set (sections st') \<and> set (elements_added st) \<subseteq> set (elements_added st')"
proof (induction ls arbitrary: st)
  case Nil
  then show ?case by simp
next
  case (Cons l ls)
  then obtain st1 where 1: "parse_line l st = Inr st1" and 2: "parse_lines ls st1 = Inr st'"
    by (auto split: sum.splits)
  from parse_line_grows [OF 1] Cons.IH [OF 2] show ?case by blast
qed

lemma header_shape:
  assumes "is_header (rstrip h)" and "rstrip h \<noteq> ''[]''"
  shows "\<exists>name. name \<noteq> [] \<and> rstrip h = CHR ''['' # name @ '']'' \<and>
           strip h = rstrip h \<and> first_nonspace h = 0 \<and> sect_header (rstrip h) = Some name"
proof -
  from assms(1) obtain rest where r: "rstrip h = CHR ''['' # rest"
    by (cases "rstrip h") (auto simp: is_header_def startswith_def)
  from assms(1) r obtain tl' where e: "rev (CHR ''['' # rest) = CHR '']'' # tl'"
    by (cases "rev (rstrip h)") (auto simp: is_header_def endswith_def)
  then have "rest \<noteq> []" by auto
  with e obtain name where n: "rest = name @ '']''"
    by (cases rest rule: rev_cases) auto
  with r assms(2) have ne: "name \<noteq> []" by auto
  from r have "h \<noteq> []" by (auto simp: rstrip_def)
  have hd: "hd h = CHR ''[''"
  proof -
    from r have "rev (dropWhile isspace (rev h)) = CHR ''['' # rest" by (simp add: rstrip_def)
    then have "dropWhile isspace (rev h) = rev rest @ ''[''" by (metis rev.simps(2) rev_rev_ident)
    then obtain ws where "rev h = ws @ rev rest @ ''[''"
      by (metis takeWhile_dropWhile_id)
    then have "h = CHR ''['' # rest @ rev ws" by (metis append_assoc rev.simps(2) rev_append rev_rev_ident rev_swap append_Cons append_Nil)
    then show ?thesis by simp
  qed
  have sp: "\<not> isspace (CHR ''['')" by (simp add: isspace_def)
  from hd \<open>h \<noteq> []\<close> sp have dw: "dropWhile isspace h = h" by (cases h) auto
  then have "strip h = rstrip h" by (simp add: strip_def)
  moreover from hd \<open>h \<noteq> []\<close> sp have "first_nonspace h = 0"
    by (cases h) (auto simp: first_nonspace_def)
  moreover have "sect_header (rstrip h) = Some name"
    using r n ne by (simp add: sect_header_def)
  ultimately show ?thesis using r n ne by auto
qed

lemma parse_line_header:
  assumes "is_header (rstrip h)" and "rstrip h \<noteq> ''[]''" and "rstrip h \<noteq> ''[DEFAULT]''"
  shows "\<exists>name. sect_header (rstrip h) = Some name \<and>
     (if name \<in> set (sections st) \<and> Inl name \<in> set (elements_added st)
      then parse_line h st = Inl (DuplicateSectionError name)
      else \<exists>st'. parse_line h st = Inr st' \<and>
             name \<in> set (sections st') \<and> Inl name \<in> set (elements_added st'))"
proof -
  from header_shape [OF assms(1,2)] obtain name where ne: "name \<noteq> []"
    and r: "rstrip h = CHR ''['' # name @ '']''" and s: "strip h = rstrip h"
    and f: "first_nonspace h = 0" and sh: "sect_header (rstrip h) = Some name"
    by blast
  from r assms(3) have nd: "name \<noteq> DEFAULTSECT" by (auto simp: DEFAULTSECT_def)
  have nc: "\<not> (startswith (strip h) (CHR ''#'') \<or> startswith (strip h) (CHR '';''))"
    using r s by (simp add: startswith_def)
  have nemp: "strip h \<noteq> []" using r s by simp
  show ?thesis
    using sh nd nc nemp f s
    by (intro exI [of _ name]) (auto simp: parse_line_def Let_def)
qed

lemma repeated_header_parser_raises:
  assumes "is_header (rstrip h)" and "rstrip h' = rstrip h"
    and "rstrip h \<noteq> ''[]''" and "rstrip h \<noteq> ''[DEFAULT]''"
  shows "\<exists>e. parse_lines (before @ h # mid @ h' # after) st = Inl e"
proof (cases "parse_lines before st")
  case (Inl e)
  then show ?thesis by (simp add: parse_lines_append)
next
  case (Inr st1)
  from parse_line_header [OF assms(1,3,4), of st1] obtain name where
    sh: "sect_header (rstrip h) = Some name"
    and first: "if name \<in> set (sections st1) \<and> Inl name \<in> set (elements_added st1)
      then parse_line h st1 = Inl (DuplicateSectionError name)
      else \<exists>st'. parse_line h st1 = Inr st' \<and>
             name \<in> set (sections st') \<and> Inl name \<in> set (elements_added st')"
    by blast
  show ?thesis
  proof (cases "parse_line h st1")
    case (Inl e)
    with Inr show ?thesis by (simp add: parse_lines_append)
  next
    case st2: (Inr st2)
    with first have in2: "name \<in> set (sections st2)" "Inl name \<in> set (elements_added st2)"
      by (auto split: if_splits)
    show ?thesis
    proof (cases "parse_lines mid st2")
      case (Inl e)
      with Inr st2 show ?thesis by (simp add: parse_lines_append)
    next
      case st3: (Inr st3)
      from parse_lines_grows [OF st3] in2
      have in3: "name \<in> set (sections st3)" "Inl name \<in> set (elements_added st3)" by auto
      from assms have "is_header (rstrip h')" "rstrip h' \<noteq> ''[]''" "rstrip h' \<noteq> ''[DEFAULT]''"
        by simp_all
      from parse_line_header [OF this, of st3] sh assms(2) in3
      have "parse_line h' st3 = Inl (DuplicateSectionError name)" by auto
      with Inr st2 st3 show ?thesis by (simp add: parse_lines_append)
    qed
  qed
qed

subsection \<open>Evaluating the reader on a concrete file\<close>

lemmas inventory_eval =
  read_inventory_file_to_dict_def rstrip_def isspace_def is_header_def startswith_def
  endswith_def header_name_def lstrip_char_def rstrip_char_def read_record_def Let_def

lemmas parser_eval =
  ConfigParser_read_def parse_line_def strip_def first_nonspace_def sect_header_def
  lower_def lower_char_def DEFAULTSECT_def

text \<open>
  C6. The docstring and the specification promise keys that are the lower-case
  section names, and first-level inclusions resolved into the including section.
  The reader does neither: on the file below, which the parser accepts, the key
  \<open>Web\<close> keeps its capital letter, and the section \<open>all:children\<close> is stored under
  that very name with the included section's name \<open>Web\<close> as the address of a
  record, not with the records of \<open>Web\<close>.
\<close>

theorem read_inventory_keeps_names_as_written:
  "read_inventory_file_to_dict ConfigParser_read
     [''[Web]\<newline>'', ''Host1 ansible_user=root\<newline>'', ''[all:children]\<newline>'', ''Web\<newline>'']
   = Inr [(''Web'', [[(''addr'', ''Host1''), (''ansible_user'', ''root'')]]),
          (''all:children'', [[(''addr'', ''Web'')]])]"
  by (simp add: inventory_eval parser_eval)

subsection \<open>The precondition of the reader\<close>

text \<open>
  C8. Whatever the parser does, if the reader returns a mapping then every record
  line of the file stands after some header line and every token after the first of
  a record line holds exactly one \<open>=\<close>. Both conditions can fail: a record line
  before any header, and a token without \<open>=\<close>, each make the reader raise.
\<close>

theorem read_inventory_total_only_under_precondition:
  "(read_inventory_file_to_dict config_read lines = Inr groups \<longrightarrow>
      (\<forall>i<length lines. record_line (lines ! i) \<longrightarrow>
         (\<exists>j<i. is_header (rstrip (lines ! j))) \<and>
         (\<forall>tok \<in> set (tl (split (CHR '' '') (rstrip (lines ! i)))).
            count_list tok (CHR ''='') = 1))) \<and>
   (\<exists>e. read_inventory_file_to_dict config_read [''host1 a=b\<newline>''] = Inl e) \<and>
   (\<exists>e. read_inventory_file_to_dict config_read [''[web]\<newline>'', ''host1 novalue\<newline>''] = Inl e)"
proof (intro conjI impI allI)
  fix i
  assume ret: "read_inventory_file_to_dict config_read lines = Inr groups"
    and i: "i < length lines" and rl: "record_line (lines ! i)"
  from ret have "read_lines lines ('''', []) = Inr groups"
    by (simp add: read_inventory_file_to_dict_def split: option.splits)
  from read_lines_precondition [OF this i rl]
  show "\<exists>j<i. is_header (rstrip (lines ! j))"
    and "\<forall>tok \<in> set (tl (split (CHR '' '') (rstrip (lines ! i)))). count_list tok (CHR ''='') = 1"
    by simp_all
next
  show "\<exists>e. read_inventory_file_to_dict config_read [''host1 a=b\<newline>''] = Inl e"
    by (cases "config_read [''host1 a=b\<newline>'']") (simp_all add: inventory_eval)
next
  show "\<exists>e. read_inventory_file_to_dict config_read [''[web]\<newline>'', ''host1 novalue\<newline>''] = Inl e"
    by (cases "config_read [''[web]\<newline>'', ''host1 novalue\<newline>'']") (simp_all add: inventory_eval)
qed

text \<open>
  The theorem at a file that is read: a header, then a record line with one
  well-formed token.
\<close>

theorem read_inventory_total_only_under_precondition_witness:
  "read_inventory_file_to_dict ConfigParser_read [''[web]\<newline>'', ''host1 a=b\<newline>'']
     = Inr [(''web'', [[(''addr'', ''host1''), (''a'', ''b'')]])] \<and>
   record_line ([''[web]\<newline>'', ''host1 a=b\<newline>''] ! 1) \<and>
   is_header (rstrip ([''[web]\<newline>'', ''host1 a=b\<newline>''] ! 0)) \<and>
   count_list ''a=b'' (CHR ''='') = 1"
proof -
  let ?lines = "[''[web]\<newline>'', ''host1 a=b\<newline>'']"
  let ?g = "[(''web'', [[(''addr'', ''host1''), (''a'', ''b'')]])]"
  have ret: "read_inventory_file_to_dict ConfigParser_read ?lines = Inr ?g"
    by (simp add: inventory_eval parser_eval)
  have rl: "record_line (?lines ! 1)"
    by (simp add: record_line_def inventory_eval)
  have "\<forall>i<length ?lines. record_line (?lines ! i) \<longrightarrow>
         (\<exists>j<i. is_header (rstrip (?lines ! j))) \<and>
         (\<forall>tok \<in> set (tl (split (CHR '' '') (rstrip (?lines ! i)))).
            count_list tok (CHR ''='') = 1)"
    using read_inventory_total_only_under_precondition [of ConfigParser_read ?lines ?g] ret
    by blast
  from this [rule_format, of 1] rl
  have "(\<exists>j<1. is_header (rstrip (?lines ! j))) \<and>
        (\<forall>tok \<in> set (tl (split (CHR '' '') (rstrip (?lines ! 1)))). count_list tok (CHR ''='') = 1)"
    by simp
  then have "is_header (rstrip (?lines ! 0))" and "count_list ''a=b'' (CHR ''='') = 1"
    by (simp_all add: inventory_eval)
  with ret rl show ?thesis by simp
qed

text \<open>
  As far as the loop goes the precondition is exact: where the parser accepts the
  file and the two conditions hold, the reader returns a mapping.
\<close>

lemma read_inventory_total_under_precondition:
  assumes "config_read lines = None"
    and "\<forall>i<length lines. record_line (lines ! i) \<longrightarrow>
         (\<exists>j<i. is_header (rstrip (lines ! j))) \<and>
         (\<forall>tok \<in> set (tl (split (CHR '' '') (rstrip (lines ! i)))).
            count_list tok (CHR ''='') = 1)"
  shows "\<exists>groups. read_inventory_file_to_dict config_read lines = Inr groups"
proof -
  from assms(2) have "\<exists>g'. read_lines lines ('''', []) = Inr g'"
    by (intro read_lines_total) blast
  with assms(1) show ?thesis by (simp add: read_inventory_file_to_dict_def)
qed

subsection \<open>A section name given twice\<close>

text \<open>
  C10, as stated, fails: the loop would keep the records of the last occurrence,
  but it is never reached. The parser that runs first is strict and raises
  DuplicateSectionError on the second \<open>[web]\<close>, so no mapping is returned.
\<close>

theorem repeated_header_counterexample:
  "read_inventory_file_to_dict ConfigParser_read
     [''[web]\<newline>'', ''host1\<newline>'', ''[web]\<newline>'', ''host2\<newline>'']
   = Inl (DuplicateSectionError ''web'')"
  by (simp add: inventory_eval parser_eval)

text \<open>
  C10, amended. If the same section header occurs more than once in a file, the
  reader raises and returns no mapping, the headers \<open>[DEFAULT]\<close> and \<open>[]\<close> apart
  (the parser does not count them as sections). Whenever the reader returns a
  mapping, with this parser or any other, the entry of a section holds the records
  of the record lines between the last header of that name and the next header,
  and nothing else: whatever stands before that last header, an earlier header of
  the same name and the records listed under it included, leaves no trace in the
  entry.
\<close>

theorem repeated_header_raises_or_keeps_last:
  "(is_header (rstrip h) \<and> rstrip h' = rstrip h \<and>
    rstrip h \<noteq> ''[]'' \<and> rstrip h \<noteq> ''[DEFAULT]'' \<longrightarrow>
      (\<exists>e. read_inventory_file_to_dict ConfigParser_read (before @ h # mid @ h' # after)
             = Inl e)) \<and>
   (read_inventory_file_to_dict config_read (before @ h # after) = Inr groups \<and>
    is_header (rstrip h) \<and>
    (\<forall>l \<in> set after. is_header (rstrip l) \<longrightarrow>
       header_name (rstrip l) \<noteq> header_name (rstrip h)) \<longrightarrow>
      (\<exists>records. map_of groups (header_name (rstrip h)) = Some records \<and>
         map Inr records =
           map read_record
             (filter (\<lambda>l. l \<noteq> [])
                (takeWhile (\<lambda>l. \<not> is_header l) (map rstrip after)))))"
proof (intro conjI impI)
  assume a: "is_header (rstrip h) \<and> rstrip h' = rstrip h \<and>
    rstrip h \<noteq> ''[]'' \<and> rstrip h \<noteq> ''[DEFAULT]''"
  let ?st = "\<lparr> sections = [], elements_added = [], cursect = None, optname = None,
               optvalued = False, indent_level = 0 \<rparr>"
  from a repeated_header_parser_raises [of h h' before mid after ?st]
  obtain e where "parse_lines (before @ h # mid @ h' # after) ?st = Inl e" by blast
  then show "\<exists>e. read_inventory_file_to_dict ConfigParser_read (before @ h # mid @ h' # after)
             = Inl e"
    by (simp add: read_inventory_file_to_dict_def ConfigParser_read_def)
next
  assume a: "read_inventory_file_to_dict config_read (before @ h # after) = Inr groups \<and>
    is_header (rstrip h) \<and>
    (\<forall>l \<in> set after. is_header (rstrip l) \<longrightarrow>
       header_name (rstrip l) \<noteq> header_name (rstrip h))"
  then have "read_lines (before @ h # after) ('''', []) = Inr groups"
    by (simp add: read_inventory_file_to_dict_def split: option.splits)
  from read_lines_after_header [OF this] a
  show "\<exists>records. map_of groups (header_name (rstrip h)) = Some records \<and>
         map Inr records =
           map read_record
             (filter (\<lambda>l. l \<noteq> [])
                (takeWhile (\<lambda>l. \<not> is_header l) (map rstrip after)))"
    by blast
qed

text \<open>
  The theorem at two files: one with the header \<open>[web]\<close> twice, which raises, and
  one with the header \<open>[DEFAULT]\<close> twice, which is read: the record \<open>h1\<close> of the
  first occurrence is gone, the record \<open>h2\<close> of the second is kept.
\<close>

theorem repeated_header_raises_or_keeps_last_witness:
  "is_header (rstrip ''[web]\<newline>'') \<and> rstrip ''[web]\<newline>'' \<noteq> ''[]'' \<and>
   rstrip ''[web]\<newline>'' \<noteq> ''[DEFAULT]'' \<and>
   (\<exists>e. read_inventory_file_to_dict ConfigParser_read
          ([] @ ''[web]\<newline>'' # [''host1\<newline>''] @ ''[web]\<newline>'' # [''host2\<newline>'']) = Inl e) \<and>
   read_inventory_file_to_dict ConfigParser_read
     ([''[DEFAULT]\<newline>'', ''h1 a=b\<newline>''] @ ''[DEFAULT]\<newline>'' # [''h2 c=d\<newline>'', ''[other]\<newline>'', ''h3\<newline>''])
     = Inr [(''DEFAULT'', [[(''addr'', ''h2''), (''c'', ''d'')]]), (''other'', [[(''addr'', ''h3'')]])] \<and>
   is_header (rstrip ''[DEFAULT]\<newline>'') \<and>
   header_name (rstrip ''[other]\<newline>'') \<noteq> header_name (rstrip ''[DEFAULT]\<newline>'') \<and>
   map_of [(''DEFAULT'', [[(''addr'', ''h2''), (''c'', ''d'')]]), (''other'', [[(''addr'', ''h3'')]])]
     (header_name (rstrip ''[DEFAULT]\<newline>'')) = Some [[(''addr'', ''h2''), (''c'', ''d'')]]"
proof -
  let ?w = "''[web]\<newline>''"
  have w: "is_header (rstrip ?w)" "rstrip ?w \<noteq> ''[]''" "rstrip ?w \<noteq> ''[DEFAULT]''"
    by (simp_all add: inventory_eval)
  let ?before = "[''[DEFAULT]\<newline>'', ''h1 a=b\<newline>'']"
  let ?h = "''[DEFAULT]\<newline>''"
  let ?after = "[''h2 c=d\<newline>'', ''[other]\<newline>'', ''h3\<newline>'']"
  let ?g = "[(''DEFAULT'', [[(''addr'', ''h2''), (''c'', ''d'')]]), (''other'', [[(''addr'', ''h3'')]])]"
  have ret: "read_inventory_file_to_dict ConfigParser_read (?before @ ?h # ?after) = Inr ?g"
    by (simp add: inventory_eval parser_eval)
  have hd: "is_header (rstrip ?h)" by (simp add: inventory_eval)
  have ne: "header_name (rstrip ''[other]\<newline>'') \<noteq> header_name (rstrip ?h)"
    by (simp add: inventory_eval)
  have later: "\<forall>l \<in> set ?after. is_header (rstrip l) \<longrightarrow> header_name (rstrip l) \<noteq> header_name (rstrip ?h)"
    by (simp add: inventory_eval)
  note main = repeated_header_raises_or_keeps_last
  from main [where h = ?w and h' = ?w and before = "[]" and mid = "[''host1\<newline>'']"
              and after = "[''host2\<newline>'']"] w
  have raises: "\<exists>e. read_inventory_file_to_dict ConfigParser_read
          ([] @ ?w # [''host1\<newline>''] @ ?w # [''host2\<newline>'']) = Inl e"
    by blast
  from main [where h = ?h and before = ?before and after = ?after
              and config_read = ConfigParser_read and groups = ?g] ret hd later
  obtain records where "map_of ?g (header_name (rstrip ?h)) = Some records"
    and "map Inr records = map read_record
       (filter (\<lambda>l. l \<noteq> []) (takeWhile (\<lambda>l. \<not> is_header l) (map rstrip ?after)))"
    by blast
  then have "map_of ?g (header_name (rstrip ?h)) = Some [[(''addr'', ''h2''), (''c'', ''d'')]]"
    by (simp add: inventory_eval)
  with w raises ret hd ne show ?thesis by blast
qed

section \<open>Properties of RemoteExecutor.execute\<close>

lemma dict_keys_dict_set:
  "dict_keys (dict_set k v d) = (if k \<in> set (dict_keys d) then dict_keys d else dict_keys d @ [k])"
proof (induction d)
  case Nil
  show ?case by (simp add: dict_keys_def)
next
  case (Cons p d)
  then show ?case by (cases p) (simp add: dict_keys_def)
qed

lemma execute_loop_sessions:
  "snd (execute_loop shell_run decode self c ns i (results, sessions)) =
     sessions @ map (params_of self) ns"
  by (induction ns arbitrary: i results sessions) (simp_all add: Let_def)

lemma execute_loop_keys:
  "set (dict_keys (fst (execute_loop shell_run decode self c ns i (results, sessions)))) =
     set (dict_keys results) \<union> ip ` set ns"
  by (induction ns arbitrary: i results sessions) (auto simp: Let_def dict_keys_dict_set)

lemma execute_loop_keys_distinct:
  "distinct (map ip ns) \<Longrightarrow> set (dict_keys results) \<inter> ip ` set ns = {} \<Longrightarrow>
   dict_keys (fst (execute_loop shell_run decode self c ns i (results, sessions))) =
     dict_keys results @ map ip ns"
proof (induction ns arbitrary: i results sessions)
  case Nil
  then show ?case by simp
next
  case (Cons n ns)
  let ?r = "dict_set (ip n) (run_node shell_run decode i (params_of self n) c) results"
  from Cons.prems have keys: "dict_keys ?r = dict_keys results @ [ip n]"
    by (simp add: dict_keys_dict_set)
  with Cons.prems have "set (dict_keys ?r) \<inter> ip ` set ns = {}" by auto
  with Cons.IH [of ?r "Suc i"] Cons.prems(1) keys show ?case by (simp add: Let_def)
qed

lemma execute_loop_untouched:
  "a \<notin> ip ` set ns \<Longrightarrow>
   map_of (fst (execute_loop shell_run decode self c ns i (results, sessions))) a = map_of results a"
  by (induction ns arbitrary: i results sessions) (auto simp: Let_def map_of_dict_set)

lemma execute_loop_entry:
  "distinct (map ip ns) \<Longrightarrow> k < length ns \<Longrightarrow>
   map_of (fst (execute_loop shell_run decode self c ns i (results, sessions))) (ip (ns ! k)) =
     Some (run_node shell_run decode (i + k) (params_of self (ns ! k)) c)"
proof (induction ns arbitrary: i k results sessions)
  case Nil
  then show ?case by simp
next
  case (Cons n ns)
  show ?case
  proof (cases k)
    case 0
    from Cons.prems(1) have "ip n \<notin> ip ` set ns" by auto
    with 0 show ?thesis
      by (simp add: Let_def execute_loop_untouched map_of_dict_set)
  next
    case (Suc k')
    with Cons.prems Cons.IH [of k'] show ?thesis by (simp add: Let_def)
  qed
qed

lemmas executor_eval =
  execute_def RemoteExecutor_init_def params_of_def run_node_def PREFIX_def dict_keys_def Let_def

text \<open>
  C1, as stated, fails: the mapping is keyed by \<open>node.ip\<close>, so two targets with one
  address share an entry. Both targets below are processed (two sessions), the
  mapping has one entry, and it is the second target's result.
\<close>

theorem execute_same_ip_counterexample:
  "execute (\<lambda>i p c. Inr (0, if i = 0 then ''first'' else ''second'', '''')) Inr
     (RemoteExecutor_init None ''cloud-user'' False None) ''uptime''
     (Some [\<lparr>name = ''node1'', ip = ''10.0.0.1'', sshuser = ''root'', sshpass = None\<rparr>,
            \<lparr>name = ''node1-alias'', ip = ''10.0.0.1'', sshuser = ''root'', sshpass = None\<rparr>])
   = ([(''10.0.0.1'', Completed 0 ''second'' '''')],
      [\<lparr>hostname = ''10.0.0.1'', username = ''root'', host_key_policy = raise_error,
        credential = private_key_file None\<rparr>,
       \<lparr>hostname = ''10.0.0.1'', username = ''root'', host_key_policy = raise_error,
        credential = private_key_file None\<rparr>])"
  by (simp add: executor_eval)

text \<open>
  C1, amended. For every command and every non-empty sequence of targets with
  pairwise different addresses, \<open>execute\<close> returns a mapping with exactly one entry
  for each target, keyed by the addresses in the order of the targets, and opens
  one session for each target, in order, whatever the earlier sessions did. The
  entry of a target is the outcome of its own session: return code 1 and the
  exception's text when the session raises, and the remote return code with the
  decoded output and error streams when it returns. The function is total: no
  outcome of a session makes it raise.
\<close>

theorem execute_one_entry_per_target:
  assumes "ns \<noteq> []" and "distinct (map ip ns)"
  shows "case execute shell_run decode self cmd (Some ns) of
      (results, sessions) \<Rightarrow>
        length results = length ns \<and>
        dict_keys results = map ip ns \<and>
        sessions = map (params_of self) ns \<and>
        (\<forall>k<length ns.
           map_of results (ip (ns ! k)) =
             Some (run_node shell_run decode k (params_of self (ns ! k)) (PREFIX @ [cmd])) \<and>
           (\<forall>e. shell_run k (params_of self (ns ! k)) (PREFIX @ [cmd]) = Inl e \<longrightarrow>
              map_of results (ip (ns ! k)) = Some (Errored 1 e)) \<and>
           (\<forall>rc out serr text_out text_err.
              shell_run k (params_of self (ns ! k)) (PREFIX @ [cmd]) = Inr (rc, out, serr) \<longrightarrow>
              decode out = Inr text_out \<longrightarrow> decode serr = Inr text_err \<longrightarrow>
              map_of results (ip (ns ! k)) = Some (Completed rc text_out text_err)))"
proof -
  let ?c = "PREFIX @ [cmd]"
  let ?run = "execute_loop shell_run decode self ?c ns 0 ([], [])"
  from assms(1) have ex: "execute shell_run decode self cmd (Some ns) = ?run"
    by (cases ns) (simp_all add: execute_def)
  have keys: "dict_keys (fst ?run) = map ip ns"
    using execute_loop_keys_distinct [OF assms(2), of "[]" shell_run decode self ?c 0 "[]"]
    by (simp add: dict_keys_def)
  then have len: "length (fst ?run) = length ns"
    by (metis dict_keys_def length_map)
  have sess: "snd ?run = map (params_of self) ns"
    by (simp add: execute_loop_sessions)
  have entry: "map_of (fst ?run) (ip (ns ! k)) = Some (run_node shell_run decode k (params_of self (ns ! k)) ?c)"
    if "k < length ns" for k
    using execute_loop_entry [OF assms(2) that, of shell_run decode self ?c 0 "[]" "[]"] by simp
  show ?thesis
    unfolding ex
    using keys len sess entry
    by (cases ?run) (auto simp: run_node_def)
qed

text \<open>
  The theorem at two targets with different addresses: the first refuses the
  connection, the second runs the command.
\<close>

theorem execute_one_entry_per_target_witness:
  "[\<lparr>name = ''node1'', ip = ''10.0.0.1'', sshuser = ''root'', sshpass = None\<rparr>,
    \<lparr>name = ''node2'', ip = ''10.0.0.2'', sshuser = ''admin'', sshpass = Some ''secret''\<rparr>] \<noteq> [] \<and>
   distinct (map ip
     [\<lparr>name = ''node1'', ip = ''10.0.0.1'', sshuser = ''root'', sshpass = None\<rparr>,
      \<lparr>name = ''node2'', ip = ''10.0.0.2'', sshuser = ''admin'', sshpass = Some ''secret''\<rparr>]) \<and>
   execute (\<lambda>i p c. if hostname p = ''10.0.0.1'' then Inl ''connection refused''
                     else Inr (0, ''hi\<newline>'', '''')) Inr
     (RemoteExecutor_init None ''cloud-user'' False None) ''echo hi''
     (Some [\<lparr>name = ''node1'', ip = ''10.0.0.1'', sshuser = ''root'', sshpass = None\<rparr>,
            \<lparr>name = ''node2'', ip = ''10.0.0.2'', sshuser = ''admin'', sshpass = Some ''secret''\<rparr>])
   = ([(''10.0.0.1'', Errored 1 ''connection refused''),
       (''10.0.0.2'', Completed 0 ''hi\<newline>'' '''')],
      [\<lparr>hostname = ''10.0.0.1'', username = ''root'', host_key_policy = raise_error,
        credential = private_key_file None\<rparr>,
       \<lparr>hostname = ''10.0.0.2'', username = ''admin'', host_key_policy = raise_error,
        credential = password ''secret''\<rparr>])"
proof -
  let ?ns = "[\<lparr>name = ''node1'', ip = ''10.0.0.1'', sshuser = ''root'', sshpass = None\<rparr>,
              \<lparr>name = ''node2'', ip = ''10.0.0.2'', sshuser = ''admin'', sshpass = Some ''secret''\<rparr>]"
  let ?sh = "\<lambda>i p c. if hostname p = ''10.0.0.1'' then Inl ''connection refused''
                     else Inr (0 :: int, ''hi\<newline>'', '''')"
  let ?self = "(RemoteExecutor_init None ''cloud-user'' False None)"
  have ne: "?ns \<noteq> []" by simp
  have di: "distinct (map ip ?ns)" by simp
  from execute_one_entry_per_target
         [OF ne di, where shell_run = ?sh and decode = Inr and self = ?self and cmd = "''echo hi''"]
  have "length (fst (execute ?sh Inr ?self ''echo hi'' (Some ?ns))) = length ?ns"
    by (simp add: case_prod_beta)
  with ne di show ?thesis by (simp add: executor_eval)
qed

text \<open>
  C3, as stated, fails: an empty list of targets is false in \<open>nodes or self.nodes\<close>,
  so an executor built with a node runs the command on that node.
\<close>

theorem execute_empty_targets_counterexample:
  "execute (\<lambda>i p c. Inl ''connection refused'') Inr
     (RemoteExecutor_init
        (Some [\<lparr>name = ''node1'', ip = ''10.0.0.1'', sshuser = ''root'', sshpass = None\<rparr>])
        ''cloud-user'' False None)
     ''uptime'' (Some [])
   = ([(''10.0.0.1'', Errored 1 ''connection refused'')],
      [\<lparr>hostname = ''10.0.0.1'', username = ''root'', host_key_policy = raise_error,
        credential = private_key_file None\<rparr>])"
  by (simp add: executor_eval)

text \<open>
  C3, amended. For every command, calling \<open>execute\<close> with an empty sequence of
  targets is the same as calling it with no targets argument: the command runs on
  the nodes the executor was constructed with, one session for each. The call
  returns the empty mapping and opens no session exactly when the executor was
  constructed without nodes.
\<close>

theorem execute_empty_targets_falls_back:
  "execute shell_run decode self cmd (Some []) = execute shell_run decode self cmd None \<and>
   snd (execute shell_run decode self cmd (Some [])) = map (params_of self) (nodes self) \<and>
   set (dict_keys (fst (execute shell_run decode self cmd (Some [])))) = ip ` set (nodes self) \<and>
   (execute shell_run decode self cmd (Some []) = ([], []) \<longleftrightarrow> nodes self = [])"
proof -
  let ?run = "execute_loop shell_run decode self (PREFIX @ [cmd]) (nodes self) 0 ([], [])"
  have ex: "execute shell_run decode self cmd (Some []) = ?run"
    and ex': "execute shell_run decode self cmd None = ?run"
    by (simp_all add: execute_def)
  have sess: "snd ?run = map (params_of self) (nodes self)"
    by (simp add: execute_loop_sessions)
  have keys: "set (dict_keys (fst ?run)) = ip ` set (nodes self)"
    using execute_loop_keys [of shell_run decode self "PREFIX @ [cmd]" "nodes self" 0 "[]" "[]"]
    by (simp add: dict_keys_def)
  have "?run = ([], []) \<longleftrightarrow> nodes self = []"
  proof
    assume "?run = ([], [])"
    then have "snd ?run = []" by simp
    with sess show "nodes self = []" by simp
  next
    assume "nodes self = []"
    then show "?run = ([], [])" by simp
  qed
  with ex ex' sess keys show ?thesis by simp
qed

section \<open>Properties of the schema and of validate_file\<close>

subsection \<open>What a valid policy looks like\<close>

lemma valid_ref_fun: "ref_of s = Some t \<Longrightarrow> valid s = valid t"
  by (rule ext) simp

lemma valid_policy_object:
  assumes "valid get_schema policy"
  shows "\<exists>kvs. policy = JObj kvs"
  using assms by (cases policy) (simp_all add: get_schema_def)

lemma valid_policy_config:
  assumes "valid get_schema (JObj kvs)" and "map_of kvs ''config'' = Some c"
  shows "valid config c"
  using assms by (simp add: get_schema_def)

lemma valid_policy_nodeScenarios:
  assumes "valid get_schema (JObj kvs)" and "map_of kvs ''nodeScenarios'' = Some v"
  shows "\<exists>xs. v = JArr xs \<and> list_all (valid nodeScenario) xs"
  using assms by (cases v) (simp_all add: get_schema_def valid_ref_fun)

lemma valid_policy_podScenarios:
  assumes "valid get_schema (JObj kvs)" and "map_of kvs ''podScenarios'' = Some v"
  shows "\<exists>xs. v = JArr xs \<and> list_all (valid podScenario) xs"
  using assms by (cases v) (simp_all add: get_schema_def valid_ref_fun)

lemma valid_config_shape:
  assumes "valid config c"
  shows "\<exists>kvs a. c = JObj kvs \<and> map_of kvs ''minSecondsBetweenRuns'' = Some (JNum a) \<and>
     (map_of kvs ''maxSecondsBetweenRuns'' = None \<or> (\<exists>b. map_of kvs ''maxSecondsBetweenRuns'' = Some (JNum b)))"
proof -
  from assms obtain kvs where c: "c = JObj kvs"
    by (cases c) (simp_all add: config_def)
  from assms c have req: "''minSecondsBetweenRuns'' \<in> fst ` set kvs"
    and mn: "case map_of kvs ''minSecondsBetweenRuns'' of None \<Rightarrow> True | Some v \<Rightarrow> is_type v T_number"
    and mx: "case map_of kvs ''maxSecondsBetweenRuns'' of None \<Rightarrow> True | Some v \<Rightarrow> is_type v T_number"
    by (auto simp: config_def split: option.splits)
  from req obtain v where v: "map_of kvs ''minSecondsBetweenRuns'' = Some v"
    by (metis domD dom_map_of_conv_image_fst)
  with mn obtain a where "v = JNum a" by (cases v) simp_all
  moreover have "map_of kvs ''maxSecondsBetweenRuns'' = None \<or> (\<exists>b. map_of kvs ''maxSecondsBetweenRuns'' = Some (JNum b))"
  proof (cases "map_of kvs ''maxSecondsBetweenRuns''")
    case None
    then show ?thesis by simp
  next
    case (Some w)
    with mx show ?thesis by (cases w) simp_all
  qed
  ultimately show ?thesis using c v by blast
qed

lemma valid_scenario_fields:
  assumes "valid nodeScenario sc \<or> valid podScenario sc"
  shows "\<exists>fields. sc = JObj fields \<and>
     {''name'', ''match'', ''filters'', ''actions''} \<subseteq> fst ` set fields"
proof -
  from assms obtain fields where sc: "sc = JObj fields"
    by (cases sc) (auto simp: nodeScenario_def podScenario_def)
  with assms show ?thesis
    by (auto simp: nodeScenario_def podScenario_def)
qed

text \<open>
  In this schema every \<open>$ref\<close> has the one sibling \<open>type: object\<close>, and each entry
  referred to demands an object itself. So the later drafts of JSON Schema, which
  check the siblings of a \<open>$ref\<close> as well, accept the same documents.
\<close>

lemma ref_siblings_redundant:
  assumes "valid config j \<or> valid nodeScenario j \<or> valid podScenario j \<or> valid time j"
  shows "is_type j T_object"
  using assms
  by (cases j) (auto simp: config_def nodeScenario_def podScenario_def time_def)

lemmas schema_eval =
  validate_file_def get_schema_def config_def nodeScenario_def podScenario_def
  filterPropertyNode_def actionExecuteNode_def actionStartNode_def actionStopNode_def
  actionWait_def filterDayTime_def filterRandomSample_def filterProbability_def time_def
  matchPodNamespace_def matchPodDeploymentAndNamespace_def matchPodLabelsAndNamespace_def
  filterPropertyPod_def actionKillPod_def valid_ref_fun

subsection \<open>Keys the schema does not list\<close>

text \<open>
  Every entry of \<open>definitions\<close> and every object schema nested in one sets
  \<open>additionalProperties\<close> to \<open>False\<close>. The dictionary returned by \<open>get_schema\<close>
  itself does not, so at the top level of a document any key passes, whatever its
  value.
\<close>

lemma top_level_is_open:
  assumes "k \<notin> {''config'', ''nodeScenarios'', ''podScenarios''}"
  shows "validate_file (JObj [(k, v)]) None = Inr (JObj [(k, v)])"
proof -
  from assms have "''config'' \<noteq> k" "''nodeScenarios'' \<noteq> k" "''podScenarios'' \<noteq> k"
    by auto
  then show ?thesis by (simp add: validate_file_def get_schema_def)
qed

text \<open>
  C2. The claim says that a document with a key the schema does not list is
  rejected at every level, the top level included. The first document below
  misspells \<open>nodeScenarios\<close> and adds a key \<open>comment\<close>; it is accepted, and the
  scenario under the misspelt key is not even looked at (it lacks three required
  fields). The second document misspells a key one level down, inside \<open>config\<close>,
  and is rejected, as the claim says.
\<close>

theorem unknown_top_level_key_is_accepted:
  "validate_file
     (JObj [(''nodeScenario'', JArr [JObj [(''name'', JStr ''stop a node'')]]),
            (''comment'', JNum 1)]) None
   = Inr (JObj [(''nodeScenario'', JArr [JObj [(''name'', JStr ''stop a node'')]]),
                (''comment'', JNum 1)]) \<and>
   validate_file
     (JObj [(''config'', JObj [(''minSecondsBetweenRuns'', JNum 1),
                               (''maxSecondsBetweenRun'', JNum 2)])]) None
   = Inl ValidationError"
  by (simp add: validate_file_def get_schema_def config_def)

subsection \<open>The required fields of a scenario\<close>

text \<open>
  C7. If a document is accepted, then whatever stands under \<open>nodeScenarios\<close> or
  \<open>podScenarios\<close> is a sequence of objects and each of them has the fields \<open>name\<close>,
  \<open>match\<close>, \<open>filters\<close> and \<open>actions\<close>. The other way round, a document with a
  scenario that lacks one of the four is rejected. A scenario whose \<open>filters\<close> and
  \<open>actions\<close> (and \<open>match\<close>) are empty sequences is accepted, for a node scenario
  and for a pod scenario of any name.
\<close>

theorem scenarios_require_four_fields:
  "(validate_file (JObj kvs) None = Inr p \<and>
    (key = ''nodeScenarios'' \<or> key = ''podScenarios'') \<and> map_of kvs key = Some v \<longrightarrow>
      (\<exists>items. v = JArr items \<and>
         (\<forall>sc \<in> set items. \<exists>fields. sc = JObj fields \<and>
            {''name'', ''match'', ''filters'', ''actions''} \<subseteq> fst ` set fields))) \<and>
   ((key = ''nodeScenarios'' \<or> key = ''podScenarios'') \<and> map_of kvs key = Some (JArr items) \<and>
    JObj members \<in> set items \<and> field \<in> {''name'', ''match'', ''filters'', ''actions''} \<and>
    field \<notin> fst ` set members \<longrightarrow>
      validate_file (JObj kvs) None = Inl ValidationError) \<and>
   validate_file
     (JObj [(''nodeScenarios'',
             JArr [JObj [(''name'', JStr n), (''match'', JArr []),
                         (''filters'', JArr []), (''actions'', JArr [])]]),
            (''podScenarios'',
             JArr [JObj [(''name'', JStr m), (''match'', JArr []),
                         (''filters'', JArr []), (''actions'', JArr [])]])]) None
   = Inr (JObj [(''nodeScenarios'',
             JArr [JObj [(''name'', JStr n), (''match'', JArr []),
                         (''filters'', JArr []), (''actions'', JArr [])]]),
            (''podScenarios'',
             JArr [JObj [(''name'', JStr m), (''match'', JArr []),
                         (''filters'', JArr []), (''actions'', JArr [])]])])"
proof -
  have fields: "\<exists>items. v = JArr items \<and>
         (\<forall>sc \<in> set items. \<exists>fields. sc = JObj fields \<and>
            {''name'', ''match'', ''filters'', ''actions''} \<subseteq> fst ` set fields)"
    if v: "valid get_schema (JObj kvs)"
      and key: "key = ''nodeScenarios'' \<or> key = ''podScenarios''"
      and some: "map_of kvs key = Some v" for kvs key v
  proof -
    from key obtain items where items: "v = JArr items"
      and all: "list_all (\<lambda>sc. valid nodeScenario sc \<or> valid podScenario sc) items"
    proof
      assume k: "key = ''nodeScenarios''"
      from valid_policy_nodeScenarios [OF v some [unfolded k]]
      obtain xs where "v = JArr xs" "list_all (valid nodeScenario) xs" by blast
      then show ?thesis by (intro that [of xs]) (auto simp: list_all_iff)
    next
      assume k: "key = ''podScenarios''"
      from valid_policy_podScenarios [OF v some [unfolded k]]
      obtain xs where "v = JArr xs" "list_all (valid podScenario) xs" by blast
      then show ?thesis by (intro that [of xs]) (auto simp: list_all_iff)
    qed
    from all have "\<forall>sc \<in> set items. \<exists>fields. sc = JObj fields \<and>
        {''name'', ''match'', ''filters'', ''actions''} \<subseteq> fst ` set fields"
      using valid_scenario_fields by (auto simp: list_all_iff)
    with items show ?thesis by blast
  qed
  have first: "\<exists>items. v = JArr items \<and>
         (\<forall>sc \<in> set items. \<exists>fields. sc = JObj fields \<and>
            {''name'', ''match'', ''filters'', ''actions''} \<subseteq> fst ` set fields)"
    if "validate_file (JObj kvs) None = Inr p \<and>
        (key = ''nodeScenarios'' \<or> key = ''podScenarios'') \<and> map_of kvs key = Some v"
  proof -
    from that have "valid get_schema (JObj kvs)"
      by (simp add: validate_file_def split: if_splits)
    with that fields show ?thesis by blast
  qed
  have second: "validate_file (JObj kvs) None = Inl ValidationError"
    if h: "(key = ''nodeScenarios'' \<or> key = ''podScenarios'') \<and> map_of kvs key = Some (JArr items) \<and>
      JObj members \<in> set items \<and> field \<in> {''name'', ''match'', ''filters'', ''actions''} \<and>
      field \<notin> fst ` set members"
  proof (rule ccontr)
    assume "validate_file (JObj kvs) None \<noteq> Inl ValidationError"
    then have "valid get_schema (JObj kvs)"
      by (simp add: validate_file_def split: if_splits)
    from fields [OF this, of key "JArr items"] h
    have "\<forall>sc \<in> set items. \<exists>fields. sc = JObj fields \<and>
        {''name'', ''match'', ''filters'', ''actions''} \<subseteq> fst ` set fields"
      by blast
    with h have "{''name'', ''match'', ''filters'', ''actions''} \<subseteq> fst ` set members"
      by blast
    with h show False by blast
  qed
  have third: "validate_file
     (JObj [(''nodeScenarios'',
             JArr [JObj [(''name'', JStr n), (''match'', JArr []),
                         (''filters'', JArr []), (''actions'', JArr [])]]),
            (''podScenarios'',
             JArr [JObj [(''name'', JStr m), (''match'', JArr []),
                         (''filters'', JArr []), (''actions'', JArr [])]])]) None
   = Inr (JObj [(''nodeScenarios'',
             JArr [JObj [(''name'', JStr n), (''match'', JArr []),
                         (''filters'', JArr []), (''actions'', JArr [])]]),
            (''podScenarios'',
             JArr [JObj [(''name'', JStr m), (''match'', JArr []),
                         (''filters'', JArr []), (''actions'', JArr [])]])])"
    by (simp add: validate_file_def get_schema_def nodeScenario_def podScenario_def valid_ref_fun)
  from first second third show ?thesis by blast
qed

text \<open>
  The theorem at an accepted document with one node scenario that has a match
  clause, no filter and one action.
\<close>

theorem scenarios_require_four_fields_witness:
  "validate_file
     (JObj [(''nodeScenarios'',
        JArr [JObj [(''name'', JStr ''stop node1''),
                    (''match'', JArr [JObj [(''property'',
                        JObj [(''name'', JStr ''name''), (''value'', JStr ''node1'')])]]),
                    (''filters'', JArr []),
                    (''actions'', JArr [JObj [(''stop'', JObj [(''force'', JBool True)])]])]])])
     None
   = Inr (JObj [(''nodeScenarios'',
        JArr [JObj [(''name'', JStr ''stop node1''),
                    (''match'', JArr [JObj [(''property'',
                        JObj [(''name'', JStr ''name''), (''value'', JStr ''node1'')])]]),
                    (''filters'', JArr []),
                    (''actions'', JArr [JObj [(''stop'', JObj [(''force'', JBool True)])]])]])]) \<and>
   {''name'', ''match'', ''filters'', ''actions''} \<subseteq>
     fst ` set [(''name'', JStr ''stop node1''),
                (''match'', JArr [JObj [(''property'',
                    JObj [(''name'', JStr ''name''), (''value'', JStr ''node1'')])]]),
                (''filters'', JArr []),
                (''actions'', JArr [JObj [(''stop'', JObj [(''force'', JBool True)])]])]"
proof -
  let ?sc = "[(''name'', JStr ''stop node1''),
                (''match'', JArr [JObj [(''property'',
                    JObj [(''name'', JStr ''name''), (''value'', JStr ''node1'')])]]),
                (''filters'', JArr []),
                (''actions'', JArr [JObj [(''stop'', JObj [(''force'', JBool True)])]])]"
  let ?kvs = "[(''nodeScenarios'', JArr [JObj ?sc])]"
  have v: "validate_file (JObj ?kvs) None = Inr (JObj ?kvs)"
    by (simp add: schema_eval)
  have m: "map_of ?kvs ''nodeScenarios'' = Some (JArr [JObj ?sc])" by simp
  from scenarios_require_four_fields
         [where kvs = ?kvs and p = "JObj ?kvs" and key = "''nodeScenarios''"
            and v = "JArr [JObj ?sc]"] v m
  have "\<exists>items. JArr [JObj ?sc] = JArr items \<and>
         (\<forall>sc \<in> set items. \<exists>fields. sc = JObj fields \<and>
            {''name'', ''match'', ''filters'', ''actions''} \<subseteq> fst ` set fields)"
    by blast
  then have "{''name'', ''match'', ''filters'', ''actions''} \<subseteq> fst ` set ?sc"
    by auto
  with v show ?thesis by blast
qed

section \<open>Properties of PolicyRunner.run\<close>

subsection \<open>A valid policy passes the statements before the loop\<close>



lemma valid_policy_waits:
  assumes "valid get_schema policy"
  shows "\<exists>a b. wait_min_of policy = Inr (JNum a) \<and> wait_max_of policy = Inr (JNum b)"
proof -
  from valid_policy_object [OF assms] obtain kvs where p: "policy = JObj kvs" by blast
  show ?thesis
  proof (cases "map_of kvs ''config''")
    case None
    with p show ?thesis by (simp add: wait_min_of_def wait_max_of_def dict_get_def)
  next
    case (Some c)
    from valid_config_shape [OF valid_policy_config [OF assms [unfolded p] Some]]
    obtain ckvs a where "c = JObj ckvs" "map_of ckvs ''minSecondsBetweenRuns'' = Some (JNum a)"
      "map_of ckvs ''maxSecondsBetweenRuns'' = None \<or>
        (\<exists>b. map_of ckvs ''maxSecondsBetweenRuns'' = Some (JNum b))"
      by blast
    with p Some show ?thesis
      by (auto simp: wait_min_of_def wait_max_of_def dict_get_def)
  qed
qed

subsection \<open>The sleep time\<close>










subsection \<open>The loop\<close>





subsection \<open>The order of a round\<close>




subsection \<open>Termination\<close>




subsection \<open>Truncation\<close>




end
